theory Spec2Isabelle
  imports Main "HOL-Library.Word" "HOL-Library.Multiset"
begin

section \<open>The connection pool of clickhouse.go\<close>

text \<open>
  A shallow embedding of \<^verbatim>\<open>clickhouse.go\<close>: the \<^verbatim>\<open>Options\<close> structure with its
  defaulting and its connection-string parser, \<^verbatim>\<open>Open\<close>, and the pool operations
  \<^verbatim>\<open>acquire\<close> and \<open>release\<close> over the two buffered channels \<^verbatim>\<open>ch.open\<close> and
  \<^verbatim>\<open>ch.idle\<close>.

  Go's \<^verbatim>\<open>int\<close>, \<^verbatim>\<open>int64\<close> and \<^verbatim>\<open>time.Duration\<close> are 64-bit two's complement values
  (a 64-bit platform): \<open>64 word\<close>, read with \<open>sint\<close> where the code compares them.
  Pointers are addresses into an explicit store, so that the sharing of one \<^verbatim>\<open>Options\<close>
  structure between the caller and the handle is visible.
\<close>

subsection \<open>Errors and results\<close>

text \<open>
  \<^verbatim>\<open>io.EOF\<close> is the one error this file creates itself; every other error (from
  \<^verbatim>\<open>url.Parse\<close>, from \<^verbatim>\<open>dial\<close>, on a session) is opaque and carries its message.
\<close>

datatype error = EOF | Failure string

text \<open>
  What a call does: it panics, it is blocked in a \<^verbatim>\<open>select\<close> with no ready case at the
  instant it is observed, or it returns.
\<close>

datatype 'a outcome = Panics | Blocks | Returns 'a

subsection \<open>Options\<close>

record Auth =
  Database :: string
  Username :: string
  Password :: string

text \<open>
  Modelled from the spec: \<^verbatim>\<open>compress.Method\<close> is declared in \<^verbatim>\<open>lib/compress\<close>, outside
  this file, which names its member \<^verbatim>\<open>compress.LZ4\<close> only; the spec speaks of LZ4 and
  other codecs.
\<close>

datatype compress_Method = compress_LZ4 | compress_other nat

definition CompressionLZ4 :: compress_Method where
  "CompressionLZ4 = compress_LZ4"

record Compression =
  Method :: compress_Method

text \<open>
  \<^verbatim>\<open>TLS *tls.Config\<close> is an opaque pointer (\<open>None\<close> is \<^verbatim>\<open>nil\<close>); \<^verbatim>\<open>Settings\<close> is a map
  this file never reads, kept as an association list.
\<close>

record Options =
  Addr :: "string list"
  Auth :: Auth
  TLS :: "nat option"
  Debug :: bool
  Settings :: "(string \<times> string) list"
  DialTimeout :: "64 word"
  Compression :: "Compression option"
  MaxOpenConns :: "64 word"
  MaxIdleConns :: "64 word"
  ConnMaxLifetime :: "64 word"

text \<open>The zero value \<^verbatim>\<open>Options{}\<close>.\<close>

definition Options_zero :: Options where
  "Options_zero =
     \<lparr>Addr = [], Auth = \<lparr>Database = [], Username = [], Password = []\<rparr>, TLS = None,
      Debug = False, Settings = [], DialTimeout = 0, Compression = None,
      MaxOpenConns = 0, MaxIdleConns = 0, ConnMaxLifetime = 0\<rparr>"

definition time_Second :: "64 word" where
  "time_Second = 1000000000"

definition time_Hour :: "64 word" where
  "time_Hour = 3600000000000"

text \<open>
  \<^verbatim>\<open>func (o *Options) setDefaults()\<close>: six tests in the order of the source, each
  reading the fields as the tests before it left them.
\<close>

definition setDefaults :: "Options \<Rightarrow> Options" where
  "setDefaults v =
     (let v1 = (if length (Database (Auth v)) = 0
                then v\<lparr>Auth := (Auth v)\<lparr>Database := ''default''\<rparr>\<rparr> else v);
          v2 = (if length (Username (Auth v1)) = 0
                then v1\<lparr>Auth := (Auth v1)\<lparr>Username := ''default''\<rparr>\<rparr> else v1);
          v3 = (if DialTimeout v2 = 0 then v2\<lparr>DialTimeout := time_Second\<rparr> else v2);
          v4 = (if sint (MaxIdleConns v3) \<le> 0 then v3\<lparr>MaxIdleConns := 5\<rparr> else v3);
          v5 = (if sint (MaxOpenConns v4) \<le> 0
                then v4\<lparr>MaxOpenConns := MaxIdleConns v4 + 5\<rparr> else v4);
          v6 = (if ConnMaxLifetime v5 = 0 then v5\<lparr>ConnMaxLifetime := time_Hour\<rparr> else v5)
      in v6)"

subsection \<open>The store, sessions and the handle\<close>

text \<open>
  Modelled from the spec: the session type \<^verbatim>\<open>connect\<close> is declared outside this file.
  The pool reads \<^verbatim>\<open>conn.err\<close> and \<^verbatim>\<open>conn.connectedAt\<close> and calls \<^verbatim>\<open>conn.close()\<close>;
  the spec gives a session its last-observed error (nil if healthy), its creation
  timestamp, and destruction by an explicit close. Times are nanoseconds on one clock.
\<close>

record connect =
  err :: "error option"
  connectedAt :: int

text \<open>
  The store: the \<^verbatim>\<open>Options\<close> structures by address (an address without a structure is
  a nil pointer), every \<^verbatim>\<open>connect\<close> ever allocated, a \<^verbatim>\<open>*connect\<close> being its index, and
  the sessions on which \<^verbatim>\<open>close()\<close> has been called, in the order of the calls.
\<close>

record store =
  options :: "nat \<rightharpoonup> Options"
  connects :: "connect list"
  closed :: "nat list"

text \<open>
  \<^verbatim>\<open>type clickhouse struct\<close>. A buffered channel is its buffer and its capacity:
  \<^verbatim>\<open>idle\<close> holds session pointers in arrival order, \<^verbatim>\<open>open\<close> holds indistinguishable
  \<^verbatim>\<open>struct{}\<close> permits, so only their number.
\<close>

record clickhouse =
  opt :: nat
  idle :: "nat list"
  idle_cap :: nat
  "open" :: nat
  open_cap :: nat
  counter :: "64 word"

text \<open>
  \<^verbatim>\<open>make(chan T, n)\<close> for an \<^verbatim>\<open>int\<close> that is not a constant: the runtime panics when
  \<open>n\<close> is negative, when \<open>n\<close> elements overflow the address space, or when they exceed
  what the allocator gives a channel buffer. That last bound depends on the platform and is
  the parameter \<open>maxmem\<close> (in bytes); \<open>elemsize\<close> is 8 for a pointer, 0 for \<^verbatim>\<open>struct{}\<close>.
\<close>

definition makechan :: "nat \<Rightarrow> nat \<Rightarrow> 64 word \<Rightarrow> nat option" where
  "makechan maxmem elemsize n =
     (if sint n < 0 \<or> 2 ^ 64 \<le> elemsize * unat n \<or> maxmem < elemsize * unat n
      then None else Some (unat n))"

text \<open>
  \<^verbatim>\<open>func Open(opt *Options) (driver.Conn, error)\<close>. The defaults are written through the
  pointer; the handle keeps the pointer. The two results are the handle and the error.
\<close>

definition Open ::
  "nat \<Rightarrow> nat \<Rightarrow> store \<Rightarrow> ((clickhouse option \<times> error option) \<times> store) outcome" where
  "Open maxmem p s =
     (case options s p of
        None \<Rightarrow> Panics
      | Some v \<Rightarrow>
          let s' = s\<lparr>options := (options s)(p \<mapsto> setDefaults v)\<rparr> in
          (case options s' p of
             None \<Rightarrow> Panics
           | Some d \<Rightarrow>
               (case makechan maxmem 8 (MaxIdleConns d) of
                  None \<Rightarrow> Panics
                | Some ci \<Rightarrow>
                    (case makechan maxmem 0 (MaxOpenConns d) of
                       None \<Rightarrow> Panics
                     | Some co \<Rightarrow>
                         Returns ((Some \<lparr>opt = p, idle = [], idle_cap = ci,
                                         open = 0, open_cap = co, counter = 0\<rparr>, None),
                                  s')))))"

subsection \<open>The connection string\<close>

text \<open>
  \<^verbatim>\<open>url.Parse\<close> belongs to Go's standard library and is a parameter of the model. Of
  the \<^verbatim>\<open>*url.URL\<close> it returns the code reads \<^verbatim>\<open>dsn.Host\<close> and \<^verbatim>\<open>dsn.Query()\<close>, a
  \<^verbatim>\<open>url.Values\<close> (\<^verbatim>\<open>map[string][]string\<close>), kept as an association list.
\<close>

record URL =
  Host :: string
  Query :: "(string \<times> string list) list"

text \<open>\<^verbatim>\<open>func (v Values) Get(key string) string\<close>: the first value of the key, or \<^verbatim>\<open>""\<close>.\<close>

definition Values_Get :: "(string \<times> string list) list \<Rightarrow> string \<Rightarrow> string" where
  "Values_Get params k =
     (case map_of params k of
        None \<Rightarrow> []
      | Some [] \<Rightarrow> []
      | Some (x # xs) \<Rightarrow> x)"

text \<open>
  \<^verbatim>\<open>strconv.ParseBool\<close>: six spellings of true, six of false, an error (with
  \<^verbatim>\<open>false\<close>) for every other string.
\<close>

definition strconv_ParseBool :: "string \<Rightarrow> bool \<times> error option" where
  "strconv_ParseBool str =
     (if str \<in> set [''1'', ''t'', ''T'', ''TRUE'', ''true'', ''True''] then (True, None)
      else if str \<in> set [''0'', ''f'', ''F'', ''FALSE'', ''false'', ''False''] then (False, None)
      else (False, Some (Failure ''strconv.ParseBool: invalid syntax'')))"

text \<open>
  The body of \<^verbatim>\<open>for v := range params { switch v { ... } }\<close> for one key. Both calls of
  \<^verbatim>\<open>ParseBool\<close> drop the error (\<^verbatim>\<open>_\<close>). The cases \<^verbatim>\<open>dial_timeout\<close>, \<^verbatim>\<open>alt_hosts\<close>,
  \<^verbatim>\<open>secure\<close> and \<^verbatim>\<open>skip_verify\<close> are empty, and so are the three cases of the inner
  switch, which looks up the key \<^verbatim>\<open>"v"\<close>.
\<close>

definition fromDSN_case :: "(string \<times> string list) list \<Rightarrow> string \<Rightarrow> Options \<Rightarrow> Options" where
  "fromDSN_case params v opts =
     (if v = ''debug'' then opts\<lparr>Debug := fst (strconv_ParseBool (Values_Get params v))\<rparr>
      else if v = ''compress'' then
        (if fst (strconv_ParseBool (Values_Get params v))
         then opts\<lparr>Compression := Some \<lparr>Method = CompressionLZ4\<rparr>\<rparr>
         else opts)
      else if v = ''dial_timeout'' then opts
      else if v = ''alt_hosts'' then opts
      else if v = ''secure'' then opts
      else if v = ''skip_verify'' then opts
      else if v = ''connection_open_strategy'' then
        (let strategy = Values_Get params ''v'' in
         if strategy = ''random'' then opts
         else if strategy = ''in_order'' then opts
         else if strategy = ''time_random'' then opts
         else opts)
      else opts)"

text \<open>
  \<^verbatim>\<open>func (o *Options) fromDSN(in string) error\<close>, on the value the receiver points to:
  the error returned and the value afterwards. The keys of the map are visited in the
  order of the association list.
\<close>

definition fromDSN ::
  "(string \<Rightarrow> error + URL) \<Rightarrow> string \<Rightarrow> Options \<Rightarrow> error option \<times> Options" where
  "fromDSN url_Parse inp opts =
     (case url_Parse inp of
        Inl e \<Rightarrow> (Some e, opts)
      | Inr dsn \<Rightarrow>
          let opts1 = opts\<lparr>Addr := Addr opts @ [Host dsn]\<rparr>;
              params = Query dsn;
              opts2 = fold (fromDSN_case params) (map fst params) opts1
          in (None, setDefaults opts2))"

text \<open>
  What \<^verbatim>\<open>url.Parse\<close> returns on the connection strings used below: the host and the
  query values of three well-formed strings, and for anything else the error it gives a string
  such as \<^verbatim>\<open>://127.0.0.1:9000\<close>, which has no scheme.
\<close>

definition url_Parse_sample :: "string \<Rightarrow> error + URL" where
  "url_Parse_sample inp =
     (if inp = ''clickhouse://127.0.0.1:9000'' then
        Inr \<lparr>Host = ''127.0.0.1:9000'', Query = []\<rparr>
      else if inp = ''clickhouse://127.0.0.1:9000?compress=true&debug=T'' then
        Inr \<lparr>Host = ''127.0.0.1:9000'',
             Query = [(''compress'', [''true'']), (''debug'', [''T''])]\<rparr>
      else if inp = ''clickhouse://127.0.0.1:9000?debug=maybe&dial_timeout=5s'' then
        Inr \<lparr>Host = ''127.0.0.1:9000'',
             Query = [(''debug'', [''maybe'']), (''dial_timeout'', [''5s''])]\<rparr>
      else Inl (Failure ''parse: missing protocol scheme''))"

subsection \<open>Select statements and the timer\<close>

text \<open>
  A \<^verbatim>\<open>select\<close> statement, after the Go specification: of the communications that can
  proceed one is chosen by a pseudo-random draw (\<open>pick\<close>); if none can, the default
  case is taken when there is one, and otherwise the statement waits.
\<close>

datatype selected = Comm nat | Default | Wait

definition select :: "nat \<Rightarrow> bool list \<Rightarrow> bool \<Rightarrow> selected" where
  "select pick ready has_default =
     (case filter (\<lambda>i. ready ! i) [0..<length ready] of
        [] \<Rightarrow> (if has_default then Default else Wait)
      | i # rest \<Rightarrow> Comm ((i # rest) ! (pick mod length (i # rest))))"

text \<open>
  \<^verbatim>\<open>timer := time.NewTimer(time.Second)\<close>, created at the instant \<open>created\<close>: a
  receive from \<^verbatim>\<open>timer.C\<close> can proceed from one second later on.
\<close>

definition timer_C :: "int \<Rightarrow> int \<Rightarrow> bool" where
  "timer_C created now = (created + sint time_Second \<le> now)"

subsection \<open>acquire\<close>

text \<open>
  \<^verbatim>\<open>dial\<close> is defined outside this file and is a parameter: for an address, the
  session number and the options it yields an error or the new session.
\<close>

type_synonym dialer = "string \<Rightarrow> 64 word \<Rightarrow> Options \<Rightarrow> error + connect"

text \<open>
  The results of \<^verbatim>\<open>acquire\<close> are the pair \<^verbatim>\<open>(conn *connect, err error)\<close>. Each part of
  its body yields \<open>Some\<close> results when \<^verbatim>\<open>acquire\<close> returns there and \<open>None\<close> when
  control goes on to the next statement.

  The first \<^verbatim>\<open>select\<close>: receive from the timer, or send a permit on \<^verbatim>\<open>ch.open\<close>,
  which can proceed while the buffer has room.
\<close>

type_synonym results = "nat option \<times> error option"

definition acquire_select1 ::
  "int \<Rightarrow> int \<Rightarrow> nat \<Rightarrow> clickhouse \<Rightarrow> (results option \<times> clickhouse) outcome" where
  "acquire_select1 timer now pick ch =
     (case select pick [timer_C timer now, open ch < open_cap ch] False of
        Comm i \<Rightarrow>
          (if i = 0 then Returns (Some (None, Some EOF), ch)
           else Returns (None, ch\<lparr>open := open ch + 1\<rparr>))
      | Default \<Rightarrow> Blocks
      | Wait \<Rightarrow> Blocks)"

text \<open>
  The second \<^verbatim>\<open>select\<close>: receive from the timer, or receive the oldest idle session,
  or the default case.
\<close>

definition acquire_select2 ::
  "int \<Rightarrow> int \<Rightarrow> nat \<Rightarrow> clickhouse \<Rightarrow> (results option \<times> clickhouse) outcome" where
  "acquire_select2 timer now pick ch =
     (case select pick [timer_C timer now, idle ch \<noteq> []] True of
        Comm i \<Rightarrow>
          (if i = 0 then Returns (Some (None, Some EOF), ch)
           else Returns (Some (Some (hd (idle ch)), None), ch\<lparr>idle := tl (idle ch)\<rparr>))
      | Default \<Rightarrow> Returns (None, ch)
      | Wait \<Rightarrow> Blocks)"

text \<open>
  The loop \<^verbatim>\<open>for _, addr := range ch.opt.Addr\<close> over the named results \<^verbatim>\<open>conn, err\<close>:
  each attempt overwrites both; the first success returns. A session that \<^verbatim>\<open>dial\<close>
  returns is a new object, stored at the next free address.
\<close>

fun dial_loop ::
  "dialer \<Rightarrow> 64 word \<Rightarrow> Options \<Rightarrow> string list \<Rightarrow> results \<times> store \<Rightarrow> results \<times> store" where
  "dial_loop dial num v [] r = r"
| "dial_loop dial num v (addr # addrs) (r, s) =
     (case dial addr num v of
        Inr c \<Rightarrow> ((Some (length (connects s)), None), s\<lparr>connects := connects s @ [c]\<rparr>)
      | Inl e \<Rightarrow> dial_loop dial num v addrs ((None, Some e), s))"

text \<open>
  \<^verbatim>\<open>num := int(atomic.AddInt64(&ch.counter, 1))\<close> and the loop; the named results
  start as \<^verbatim>\<open>(nil, nil)\<close>.
\<close>

definition acquire_dial ::
  "dialer \<Rightarrow> clickhouse \<times> store \<Rightarrow> (results \<times> clickhouse \<times> store) outcome" where
  "acquire_dial dial cs =
     (case cs of (ch, s) \<Rightarrow>
        let ch' = ch\<lparr>counter := counter ch + 1\<rparr>;
            num = counter ch'
        in (case options s (opt ch') of
              None \<Rightarrow> Panics
            | Some v \<Rightarrow>
                (case dial_loop dial num v (Addr v) ((None, None), s) of
                   (r, s') \<Rightarrow> Returns (r, ch', s'))))"

text \<open>
  What one call of \<^verbatim>\<open>acquire\<close> meets from outside: the instant its timer is created,
  the instants at which its two \<^verbatim>\<open>select\<close> statements are decided, and their draws.
\<close>

record acquire_env =
  timer_at :: int
  select1_at :: int
  pick1 :: nat
  select2_at :: int
  pick2 :: nat

text \<open>
  \<^verbatim>\<open>func (ch *clickhouse) acquire() (conn *connect, err error)\<close>, run without
  interruption. \<open>Blocks\<close>: at \<open>select1_at\<close> neither the timer nor a permit is ready.
\<close>

definition acquire ::
  "dialer \<Rightarrow> acquire_env \<Rightarrow> clickhouse \<times> store \<Rightarrow> (results \<times> clickhouse \<times> store) outcome" where
  "acquire dial e cs =
     (case cs of (ch, s) \<Rightarrow>
        (case acquire_select1 (timer_at e) (select1_at e) (pick1 e) ch of
           Panics \<Rightarrow> Panics
         | Blocks \<Rightarrow> Blocks
         | Returns (Some r, ch1) \<Rightarrow> Returns (r, ch1, s)
         | Returns (None, ch1) \<Rightarrow>
             (case acquire_select2 (timer_at e) (select2_at e) (pick2 e) ch1 of
                Panics \<Rightarrow> Panics
              | Blocks \<Rightarrow> Blocks
              | Returns (Some r, ch2) \<Rightarrow> Returns (r, ch2, s)
              | Returns (None, ch2) \<Rightarrow> acquire_dial dial (ch2, s))))"

subsection \<open>release\<close>

text \<open>
  \<^verbatim>\<open>time.Since(t)\<close> is a \<^verbatim>\<open>Duration\<close>: the difference of the two instants, saturated
  to the range of \<^verbatim>\<open>int64\<close>.
\<close>

definition time_Since :: "int \<Rightarrow> int \<Rightarrow> int" where
  "time_Since now t = max (- (2 ^ 63)) (min (2 ^ 63 - 1) (now - t))"

text \<open>\<^verbatim>\<open>conn.close()\<close>: one more call recorded.\<close>

definition close :: "nat \<Rightarrow> store \<Rightarrow> store" where
  "close c s = s\<lparr>closed := closed s @ [c]\<rparr>"

text \<open>
  The first \<^verbatim>\<open>select\<close> of \<^verbatim>\<open>release\<close>: receive a permit from \<^verbatim>\<open>ch.open\<close> if there is
  one, else the default case.
\<close>

definition release_select1 :: "nat \<Rightarrow> clickhouse \<Rightarrow> clickhouse outcome" where
  "release_select1 pick ch =
     (case select pick [0 < open ch] True of
        Comm i \<Rightarrow> Returns (ch\<lparr>open := open ch - 1\<rparr>)
      | Default \<Rightarrow> Returns ch
      | Wait \<Rightarrow> Blocks)"

text \<open>
  The rest of \<^verbatim>\<open>release\<close>: the test of \<^verbatim>\<open>conn.err\<close> and of the age (\<^verbatim>\<open>||\<close> reads
  \<^verbatim>\<open>ch.opt\<close> only when the error is nil), then the second \<^verbatim>\<open>select\<close>, which sends the
  session on \<^verbatim>\<open>ch.idle\<close> while the buffer has room. A nil \<^verbatim>\<open>conn\<close> panics at
  \<^verbatim>\<open>conn.err\<close>.
\<close>

definition release_conn ::
  "int \<Rightarrow> nat \<Rightarrow> nat option \<Rightarrow> clickhouse \<times> store \<Rightarrow> (clickhouse \<times> store) outcome" where
  "release_conn now pick conn cs =
     (case cs of (ch, s) \<Rightarrow>
        (case conn of
           None \<Rightarrow> Panics
         | Some c \<Rightarrow>
             if length (connects s) \<le> c then Panics
             else if err (connects s ! c) \<noteq> None then Returns (ch, close c s)
             else
               (case options s (opt ch) of
                  None \<Rightarrow> Panics
                | Some v \<Rightarrow>
                    if sint (ConnMaxLifetime v) \<le> time_Since now (connectedAt (connects s ! c))
                    then Returns (ch, close c s)
                    else
                      (case select pick [length (idle ch) < idle_cap ch] True of
                         Comm i \<Rightarrow> Returns (ch\<lparr>idle := idle ch @ [c]\<rparr>, s)
                       | Default \<Rightarrow> Returns (ch, close c s)
                       | Wait \<Rightarrow> Blocks))))"

text \<open>
  \<^verbatim>\<open>func (ch *clickhouse) release(conn *connect)\<close>, run without interruption;
  \<open>now\<close> is the clock that \<^verbatim>\<open>time.Since\<close> reads.
\<close>

definition release ::
  "int \<Rightarrow> nat \<Rightarrow> nat \<Rightarrow> nat option \<Rightarrow> clickhouse \<times> store \<Rightarrow> (clickhouse \<times> store) outcome" where
  "release now draw1 draw2 conn cs =
     (case cs of (ch, s) \<Rightarrow>
        (case release_select1 draw1 ch of
           Panics \<Rightarrow> Panics
         | Blocks \<Rightarrow> Blocks
         | Returns ch1 \<Rightarrow> release_conn now draw2 conn (ch1, s)))"

subsection \<open>Goroutines sharing one pool\<close>

text \<open>
  Every caller in this file (\<^verbatim>\<open>ServerVersion\<close>, \<^verbatim>\<open>Query\<close>, \<^verbatim>\<open>Exec\<close>, \<^verbatim>\<open>Ping\<close>,
  \<^verbatim>\<open>PrepareBatch\<close>) calls \<^verbatim>\<open>acquire\<close>, returns at once when the error is not nil, and
  otherwise uses the session and hands it to \<^verbatim>\<open>release\<close> once. A goroutine is where it
  stands in that protocol: outside the pool; in \<^verbatim>\<open>acquire\<close> before the first
  \<^verbatim>\<open>select\<close> (with the instant its timer was created), before the second, or before
  the dial loop; back from \<^verbatim>\<open>acquire\<close> with its two results; or in \<^verbatim>\<open>release\<close> between
  the first \<^verbatim>\<open>select\<close> and the rest.
\<close>

datatype pc =
    Outside
  | At_select1 int
  | At_select2 int
  | At_dial
  | Has "nat option" "error option"
  | In_release nat

record system =
  pool :: clickhouse
  heap :: store
  clock :: int
  threads :: "pc multiset"

text \<open>Where a goroutine stands after a part of \<^verbatim>\<open>acquire\<close> that may return.\<close>

definition after_select :: "results option \<Rightarrow> pc \<Rightarrow> pc" where
  "after_select r next =
     (case r of
        Some (conn, e) \<Rightarrow> Has conn e
      | None \<Rightarrow> next)"

text \<open>
  One step of the system. The channel operations and the atomic increment are the only
  accesses to shared state, so a step is one part of \<^verbatim>\<open>acquire\<close> or \<^verbatim>\<open>release\<close> by one
  goroutine, decided at the current clock; the draws of the \<^verbatim>\<open>select\<close> statements and
  the behaviour of \<^verbatim>\<open>dial\<close> are arbitrary in each step. Besides, a goroutine starts, the
  clock advances, the owner of the \<^verbatim>\<open>Options\<close> structure writes to it (the handle shares
  it), and an operation on a checked-out session fails and sets its error. A caller that
  got a nil session with a nil error dereferences it and goes no further.
\<close>

inductive step :: "system \<Rightarrow> system \<Rightarrow> bool" where
  start:
    "step \<sigma> (\<sigma>\<lparr>threads := threads \<sigma> + {#Outside#}\<rparr>)"
| tick:
    "clock \<sigma> \<le> t \<Longrightarrow> step \<sigma> (\<sigma>\<lparr>clock := t\<rparr>)"
| options_written:
    "step \<sigma> (\<sigma>\<lparr>heap := (heap \<sigma>)\<lparr>options := (options (heap \<sigma>))(opt (pool \<sigma>) \<mapsto> v)\<rparr>\<rparr>)"
| call_acquire:
    "Outside \<in># threads \<sigma> \<Longrightarrow>
     step \<sigma> (\<sigma>\<lparr>threads := threads \<sigma> - {#Outside#} + {#At_select1 (clock \<sigma>)#}\<rparr>)"
| select1:
    "At_select1 t \<in># threads \<sigma> \<Longrightarrow>
     acquire_select1 t (clock \<sigma>) pick (pool \<sigma>) = Returns (r, ch) \<Longrightarrow>
     step \<sigma> (\<sigma>\<lparr>pool := ch,
                threads := threads \<sigma> - {#At_select1 t#} + {#after_select r (At_select2 t)#}\<rparr>)"
| select2:
    "At_select2 t \<in># threads \<sigma> \<Longrightarrow>
     acquire_select2 t (clock \<sigma>) pick (pool \<sigma>) = Returns (r, ch) \<Longrightarrow>
     step \<sigma> (\<sigma>\<lparr>pool := ch,
                threads := threads \<sigma> - {#At_select2 t#} + {#after_select r At_dial#}\<rparr>)"
| dial:
    "At_dial \<in># threads \<sigma> \<Longrightarrow>
     acquire_dial dial (pool \<sigma>, heap \<sigma>) = Returns ((conn, e), ch, s) \<Longrightarrow>
     step \<sigma> (\<sigma>\<lparr>pool := ch, heap := s,
                threads := threads \<sigma> - {#At_dial#} + {#Has conn e#}\<rparr>)"
| give_up:
    "Has conn (Some e) \<in># threads \<sigma> \<Longrightarrow>
     step \<sigma> (\<sigma>\<lparr>threads := threads \<sigma> - {#Has conn (Some e)#} + {#Outside#}\<rparr>)"
| session_fails:
    "Has (Some c) None \<in># threads \<sigma> \<Longrightarrow> c < length (connects (heap \<sigma>)) \<Longrightarrow>
     step \<sigma> (\<sigma>\<lparr>heap := (heap \<sigma>)\<lparr>connects :=
                  (connects (heap \<sigma>))[c := (connects (heap \<sigma>) ! c)\<lparr>err := Some e\<rparr>]\<rparr>\<rparr>)"
| release1:
    "Has (Some c) None \<in># threads \<sigma> \<Longrightarrow>
     release_select1 pick (pool \<sigma>) = Returns ch \<Longrightarrow>
     step \<sigma> (\<sigma>\<lparr>pool := ch,
                threads := threads \<sigma> - {#Has (Some c) None#} + {#In_release c#}\<rparr>)"
| release2:
    "In_release c \<in># threads \<sigma> \<Longrightarrow>
     release_conn (clock \<sigma>) pick (Some c) (pool \<sigma>, heap \<sigma>) = Returns (ch, s) \<Longrightarrow>
     step \<sigma> (\<sigma>\<lparr>pool := ch, heap := s,
                threads := threads \<sigma> - {#In_release c#} + {#Outside#}\<rparr>)"

text \<open>
  The system right after \<^verbatim>\<open>Open\<close> returned a handle: no goroutine is in the pool yet.
\<close>

definition opened :: "nat \<Rightarrow> nat \<Rightarrow> store \<Rightarrow> int \<Rightarrow> system option" where
  "opened maxmem p s t =
     (case Open maxmem p s of
        Returns ((Some ch, None), s') \<Rightarrow>
          Some \<lparr>pool = ch, heap = s', clock = t, threads = {#}\<rparr>
      | _ \<Rightarrow> None)"

text \<open>
  The sessions checked out (a goroutine is back from \<^verbatim>\<open>acquire\<close> with the session and
  has not called \<^verbatim>\<open>release\<close> on it), the sessions in the hands of a goroutine (checked
  out, or inside \<^verbatim>\<open>release\<close>), and the permits that goroutines have sent and not yet
  taken back.
\<close>

fun checked_out_by :: "pc \<Rightarrow> nat multiset" where
  "checked_out_by (Has (Some c) e) = {#c#}"
| "checked_out_by p = {#}"

definition checked_out :: "system \<Rightarrow> nat multiset" where
  "checked_out \<sigma> = sum_mset (image_mset checked_out_by (threads \<sigma>))"

fun held_by :: "pc \<Rightarrow> nat multiset" where
  "held_by (Has (Some c) e) = {#c#}"
| "held_by (In_release c) = {#c#}"
| "held_by p = {#}"

definition held :: "system \<Rightarrow> nat multiset" where
  "held \<sigma> = sum_mset (image_mset held_by (threads \<sigma>))"

fun permit_of :: "pc \<Rightarrow> nat" where
  "permit_of (At_select2 t) = 1"
| "permit_of At_dial = 1"
| "permit_of (Has (Some c) e) = 1"
| "permit_of p = 0"

definition permits :: "system \<Rightarrow> nat" where
  "permits \<sigma> = sum_mset (image_mset permit_of (threads \<sigma>))"

text \<open>
  What holds in every state: the channel bounds, a permit in \<^verbatim>\<open>ch.open\<close> for every
  goroutine that sent one, and single ownership of sessions: a session is in the idle queue
  or in the hands of one goroutine at most once, it is allocated, and \<^verbatim>\<open>close()\<close> was
  never called on it. Only allocated sessions have been closed.
\<close>

definition bounded :: "system \<Rightarrow> bool" where
  "bounded \<sigma> =
     (permits \<sigma> \<le> open (pool \<sigma>) \<and> open (pool \<sigma>) \<le> open_cap (pool \<sigma>) \<and>
      length (idle (pool \<sigma>)) \<le> idle_cap (pool \<sigma>))"

definition owned :: "system \<Rightarrow> nat multiset" where
  "owned \<sigma> = mset (idle (pool \<sigma>)) + held \<sigma>"

definition single_owner :: "system \<Rightarrow> bool" where
  "single_owner \<sigma> =
     ((\<forall>c \<in># owned \<sigma>. count (owned \<sigma>) c \<le> 1) \<and>
      (\<forall>c \<in># owned \<sigma>. c < length (connects (heap \<sigma>)) \<and> c \<notin> set (closed (heap \<sigma>))) \<and>
      (\<forall>c \<in> set (closed (heap \<sigma>)). c < length (connects (heap \<sigma>))))"

subsection \<open>Sample inputs\<close>

text \<open>
  A network in which \<^verbatim>\<open>good:9000\<close> accepts a connection at instant 0 and every other
  address refuses, each with its own error; and the handle that \<^verbatim>\<open>Open\<close> returns for
  options that set the address list only, with the store it leaves.
\<close>

definition dial_sample :: dialer where
  "dial_sample addr num v =
     (if addr = ''good:9000'' then Inr \<lparr>err = None, connectedAt = 0\<rparr>
      else Inl (Failure (''dial tcp '' @ addr @ '': connection refused'')))"

definition store_sample :: "string list \<Rightarrow> store" where
  "store_sample addrs =
     \<lparr>options = [0 \<mapsto> setDefaults (Options_zero\<lparr>Addr := addrs\<rparr>)], connects = [], closed = []\<rparr>"

definition pool_sample :: clickhouse where
  "pool_sample = \<lparr>opt = 0, idle = [], idle_cap = 5, open = 0, open_cap = 10, counter = 0\<rparr>"

text \<open>
  A pool of one permit whose only session is checked out and broken: what \<^verbatim>\<open>Open\<close> and
  one \<^verbatim>\<open>acquire\<close> leave for options with \<^verbatim>\<open>MaxOpenConns: 1\<close> and the address
  \<^verbatim>\<open>db:9000\<close> while that address accepts connections, followed by a failed operation on
  the session. In the sample network the address refuses connections.
\<close>

definition store_busy :: store where
  "store_busy =
     \<lparr>options = [0 \<mapsto> setDefaults (Options_zero\<lparr>Addr := [''db:9000''], MaxOpenConns := 1\<rparr>)],
      connects = [\<lparr>err = Some (Failure ''broken pipe''), connectedAt = 0\<rparr>], closed = []\<rparr>"

definition pool_busy :: clickhouse where
  "pool_busy = \<lparr>opt = 0, idle = [], idle_cap = 5, open = 1, open_cap = 1, counter = 1\<rparr>"

text \<open>
  The same pool when the session, still healthy, has been released instead: the permit is
  free and session 0 is idle.
\<close>

definition store_idle :: store where
  "store_idle = store_busy\<lparr>connects := [\<lparr>err = None, connectedAt = 0\<rparr>]\<rparr>"

definition pool_idle :: clickhouse where
  "pool_idle = pool_busy\<lparr>open := 0, idle := [0]\<rparr>"

text \<open>
  Four states of one run on the sample pool with the address \<^verbatim>\<open>good:9000\<close>: after
  \<^verbatim>\<open>Open\<close>; a goroutine has acquired session 0; the session has failed and the goroutine
  is inside \<^verbatim>\<open>release\<close>; session 0 is closed and a goroutine has acquired again.
\<close>

definition run_opened :: system where
  "run_opened =
     \<lparr>pool = pool_sample, heap = store_sample [''good:9000''], clock = 0, threads = {#}\<rparr>"

definition run_acquired :: system where
  "run_acquired =
     \<lparr>pool = pool_sample\<lparr>open := 1, counter := 1\<rparr>,
      heap = (store_sample [''good:9000''])\<lparr>connects := [\<lparr>err = None, connectedAt = 0\<rparr>]\<rparr>,
      clock = 0, threads = {#Has (Some 0) None#}\<rparr>"

definition run_releasing :: system where
  "run_releasing =
     \<lparr>pool = pool_sample\<lparr>counter := 1\<rparr>,
      heap = (store_sample [''good:9000''])
        \<lparr>connects := [\<lparr>err = Some (Failure ''broken pipe''), connectedAt = 0\<rparr>]\<rparr>,
      clock = 0, threads = {#In_release 0#}\<rparr>"

definition run_again :: system where
  "run_again =
     \<lparr>pool = pool_sample\<lparr>open := 1, counter := 2\<rparr>,
      heap = (store_sample [''good:9000''])
        \<lparr>connects := [\<lparr>err = Some (Failure ''broken pipe''), connectedAt = 0\<rparr>,
                      \<lparr>err = None, connectedAt = 0\<rparr>],
         closed := [0]\<rparr>,
      clock = 0, threads = {#Has (Some 1) None#}\<rparr>"

section \<open>Defaulting\<close>

lemma setDefaults_Database:
  "Database (Auth (setDefaults v)) =
     (if Database (Auth v) = [] then ''default'' else Database (Auth v))"
  by (simp add: setDefaults_def Let_def)

lemma setDefaults_Username:
  "Username (Auth (setDefaults v)) =
     (if Username (Auth v) = [] then ''default'' else Username (Auth v))"
  by (simp add: setDefaults_def Let_def)

lemma setDefaults_DialTimeout:
  "DialTimeout (setDefaults v) = (if DialTimeout v = 0 then time_Second else DialTimeout v)"
  by (simp add: setDefaults_def Let_def)

lemma setDefaults_MaxIdleConns:
  "MaxIdleConns (setDefaults v) = (if sint (MaxIdleConns v) \<le> 0 then 5 else MaxIdleConns v)"
  by (simp add: setDefaults_def Let_def)

lemma setDefaults_MaxOpenConns:
  "MaxOpenConns (setDefaults v) =
     (if sint (MaxOpenConns v) \<le> 0 then MaxIdleConns (setDefaults v) + 5 else MaxOpenConns v)"
  by (simp add: setDefaults_def Let_def)

lemma setDefaults_ConnMaxLifetime:
  "ConnMaxLifetime (setDefaults v) =
     (if ConnMaxLifetime v = 0 then time_Hour else ConnMaxLifetime v)"
  by (simp add: setDefaults_def Let_def)

lemma setDefaults_MaxIdleConns_pos: "1 \<le> sint (MaxIdleConns (setDefaults v))"
  by (simp add: setDefaults_MaxIdleConns)

text \<open>
  C8 (as amended). After \<^verbatim>\<open>setDefaults\<close> an empty database and an empty username
  are \<^verbatim>\<open>"default"\<close>, a zero dial timeout is one second, a max-idle that is zero or
  negative is 5, a max-open that is zero or negative is the max-idle just defaulted plus 5,
  and a zero lifetime is one hour; every other field value is kept. Max-idle is at least 1
  for every input. A positive max-open is kept as given, whatever max-idle is; a defaulted
  max-open is max-idle plus 5, hence at least max-idle, when that sum fits an \<^verbatim>\<open>int\<close>.
\<close>

theorem setDefaults_defaults:
  "Database (Auth (setDefaults v)) =
     (if Database (Auth v) = [] then ''default'' else Database (Auth v)) \<and>
   Username (Auth (setDefaults v)) =
     (if Username (Auth v) = [] then ''default'' else Username (Auth v)) \<and>
   DialTimeout (setDefaults v) = (if DialTimeout v = 0 then time_Second else DialTimeout v) \<and>
   MaxIdleConns (setDefaults v) = (if sint (MaxIdleConns v) \<le> 0 then 5 else MaxIdleConns v) \<and>
   MaxOpenConns (setDefaults v) =
     (if sint (MaxOpenConns v) \<le> 0 then MaxIdleConns (setDefaults v) + 5 else MaxOpenConns v) \<and>
   ConnMaxLifetime (setDefaults v) =
     (if ConnMaxLifetime v = 0 then time_Hour else ConnMaxLifetime v) \<and>
   1 \<le> sint (MaxIdleConns (setDefaults v)) \<and>
   (0 < sint (MaxOpenConns v) \<longrightarrow> MaxOpenConns (setDefaults v) = MaxOpenConns v) \<and>
   (sint (MaxOpenConns v) \<le> 0 \<and> sint (MaxIdleConns (setDefaults v)) \<le> 2 ^ 63 - 6 \<longrightarrow>
      sint (MaxOpenConns (setDefaults v)) = sint (MaxIdleConns (setDefaults v)) + 5)"
proof -
  have pos: "1 \<le> sint (MaxIdleConns (setDefaults v))"
    by (rule setDefaults_MaxIdleConns_pos)
  have fits: "sint (MaxIdleConns (setDefaults v) + 5) = sint (MaxIdleConns (setDefaults v)) + 5"
    if "sint (MaxIdleConns (setDefaults v)) \<le> 2 ^ 63 - 6"
  proof -
    have "sint (MaxIdleConns (setDefaults v) + 5) =
          signed_take_bit 63 (sint (MaxIdleConns (setDefaults v)) + 5)"
      by (simp add: sint_word_add)
    also have "\<dots> = sint (MaxIdleConns (setDefaults v)) + 5"
      using that pos by (intro signed_take_bit_int_eq_self) simp_all
    finally show ?thesis .
  qed
  show ?thesis
    using pos fits
    by (simp add: setDefaults_Database setDefaults_Username setDefaults_DialTimeout
        setDefaults_MaxOpenConns setDefaults_ConnMaxLifetime setDefaults_MaxIdleConns [symmetric])
qed

text \<open>
  The zero value gets every default (idle 5, open 10); options that set max-open 3 and
  max-idle 10 keep both.
\<close>

theorem setDefaults_defaults_witness:
  "setDefaults Options_zero =
     \<lparr>Addr = [], Auth = \<lparr>Database = ''default'', Username = ''default'', Password = []\<rparr>,
      TLS = None, Debug = False, Settings = [], DialTimeout = 1000000000, Compression = None,
      MaxOpenConns = 10, MaxIdleConns = 5, ConnMaxLifetime = 3600000000000\<rparr> \<and>
   MaxOpenConns (setDefaults (Options_zero\<lparr>MaxOpenConns := 3, MaxIdleConns := 10\<rparr>)) = 3 \<and>
   MaxIdleConns (setDefaults (Options_zero\<lparr>MaxOpenConns := 3, MaxIdleConns := 10\<rparr>)) = 10"
proof -
  have z: "Addr (setDefaults Options_zero) = [] \<and> TLS (setDefaults Options_zero) = None \<and>
      Debug (setDefaults Options_zero) = False \<and> Settings (setDefaults Options_zero) = [] \<and>
      Compression (setDefaults Options_zero) = None \<and>
      Password (Auth (setDefaults Options_zero)) = []"
    by (simp add: setDefaults_def Options_zero_def)
  have a: "setDefaults Options_zero =
     \<lparr>Addr = [], Auth = \<lparr>Database = ''default'', Username = ''default'', Password = []\<rparr>,
      TLS = None, Debug = False, Settings = [], DialTimeout = 1000000000, Compression = None,
      MaxOpenConns = 10, MaxIdleConns = 5, ConnMaxLifetime = 3600000000000\<rparr>"
    using setDefaults_defaults [of Options_zero] z
    by (intro Options.equality Auth.equality)
       (simp_all add: Options_zero_def time_Second_def time_Hour_def)
  have b: "MaxOpenConns (setDefaults (Options_zero\<lparr>MaxOpenConns := 3, MaxIdleConns := 10\<rparr>)) = 3 \<and>
      MaxIdleConns (setDefaults (Options_zero\<lparr>MaxOpenConns := 3, MaxIdleConns := 10\<rparr>)) = 10"
    using setDefaults_defaults [of "Options_zero\<lparr>MaxOpenConns := 3, MaxIdleConns := 10\<rparr>"]
    by simp
  from a b show ?thesis by simp
qed

text \<open>
  Against C8 as stated: with max-open 3 and max-idle 10 given, the defaulted max-open is
  below the defaulted max-idle.
\<close>

theorem setDefaults_open_below_idle:
  "sint (MaxOpenConns (setDefaults (Options_zero\<lparr>MaxOpenConns := 3, MaxIdleConns := 10\<rparr>)))
     < sint (MaxIdleConns (setDefaults (Options_zero\<lparr>MaxOpenConns := 3, MaxIdleConns := 10\<rparr>)))"
  by (simp add: setDefaults_def Options_zero_def)

section \<open>Open\<close>

lemma Open_huge_idle_Panics:
  "Open maxmem 0
     \<lparr>options = [0 \<mapsto> Options_zero\<lparr>MaxIdleConns := 9223372036854775807\<rparr>], connects = [], closed = []\<rparr>
   = Panics"
  by (simp add: Open_def setDefaults_def Options_zero_def makechan_def)

text \<open>
  C10 (as amended). \<^verbatim>\<open>Open\<close> validates nothing: for every \<^verbatim>\<open>Options\<close> structure
  whose defaulted pool sizes can be made into channels (the idle buffer fits the
  allocator's bound, max-open plus 5 did not overflow to a negative number) it returns a
  handle and a nil error, also for an empty address list and for a max-open below max-idle.
  The defaults are written into the caller's structure in place, and the handle holds the
  caller's pointer, not a copy.
\<close>

theorem Open_returns_handle:
  assumes "options s p = Some v"
      and "8 * unat (MaxIdleConns (setDefaults v)) \<le> maxmem" and "maxmem < 2 ^ 64"
      and "0 \<le> sint (MaxOpenConns (setDefaults v))"
  shows "Open maxmem p s =
     Returns ((Some \<lparr>opt = p, idle = [], idle_cap = unat (MaxIdleConns (setDefaults v)),
                     open = 0, open_cap = unat (MaxOpenConns (setDefaults v)), counter = 0\<rparr>,
               None),
              s\<lparr>options := (options s)(p \<mapsto> setDefaults v)\<rparr>)"
proof -
  have "0 \<le> sint (MaxIdleConns (setDefaults v))"
    using setDefaults_MaxIdleConns_pos [of v] by simp
  then have i: "makechan maxmem 8 (MaxIdleConns (setDefaults v)) =
      Some (unat (MaxIdleConns (setDefaults v)))"
    using assms(2,3) by (simp add: makechan_def)
  have o: "makechan maxmem 0 (MaxOpenConns (setDefaults v)) =
      Some (unat (MaxOpenConns (setDefaults v)))"
    using assms(4) by (simp add: makechan_def)
  show ?thesis
    using assms(1) i o by (simp add: Open_def)
qed

text \<open>
  With the zero value (no address at all) at address 0 and a bound of \<open>2 ^ 48\<close> bytes,
  \<^verbatim>\<open>Open\<close> returns the handle of 5 idle slots and 10 permits, and the caller's
  structure holds the defaults afterwards.
\<close>

theorem Open_returns_handle_witness:
  "Open (2 ^ 48) 0 \<lparr>options = [0 \<mapsto> Options_zero], connects = [], closed = []\<rparr> =
     Returns ((Some \<lparr>opt = 0, idle = [], idle_cap = 5, open = 0, open_cap = 10, counter = 0\<rparr>,
               None),
              \<lparr>options = [0 \<mapsto> setDefaults Options_zero], connects = [], closed = []\<rparr>)"
proof -
  have d: "MaxIdleConns (setDefaults Options_zero) = 5"
    "MaxOpenConns (setDefaults Options_zero) = 10"
    by (simp_all add: setDefaults_def Options_zero_def)
  show ?thesis
    using Open_returns_handle
      [of "\<lparr>options = [0 \<mapsto> Options_zero], connects = [], closed = []\<rparr>" 0 Options_zero "2 ^ 48"]
    by (simp add: d)
qed

text \<open>
  The handle shares the structure: when the caller fills in the address list after
  \<^verbatim>\<open>Open\<close>, \<^verbatim>\<open>acquire\<close> on the handle dials the new address.
\<close>

lemma handle_reads_callers_Options:
  "acquire dial_sample
     \<lparr>timer_at = 0, select1_at = 0, pick1 = 0, select2_at = 0, pick2 = 0\<rparr>
     (pool_sample,
      \<lparr>options = [0 \<mapsto> (setDefaults Options_zero)\<lparr>Addr := [''good:9000'']\<rparr>],
       connects = [], closed = []\<rparr>) =
   Returns ((Some 0, None), pool_sample\<lparr>open := 1, counter := 1\<rparr>,
      \<lparr>options = [0 \<mapsto> (setDefaults Options_zero)\<lparr>Addr := [''good:9000'']\<rparr>],
       connects = [\<lparr>err = None, connectedAt = 0\<rparr>], closed = []\<rparr>)"
  by (simp add: acquire_def acquire_select1_def acquire_select2_def select_def timer_C_def
      time_Second_def pool_sample_def acquire_dial_def dial_sample_def)

text \<open>
  Against C10 as stated: for options whose max-idle is the largest \<^verbatim>\<open>int\<close>, \<^verbatim>\<open>Open\<close>
  panics in \<^verbatim>\<open>make\<close> and returns nothing.
\<close>

theorem Open_can_panic:
  "Open (2 ^ 48) 0
     \<lparr>options = [0 \<mapsto> Options_zero\<lparr>MaxIdleConns := 9223372036854775807\<rparr>], connects = [], closed = []\<rparr>
   = Panics"
  by (rule Open_huge_idle_Panics)

section \<open>The connection string\<close>

lemma fromDSN_case_Debug:
  "Debug (fromDSN_case ps k v) =
     (if k = ''debug'' then fst (strconv_ParseBool (Values_Get ps ''debug'')) else Debug v)"
  by (simp add: fromDSN_case_def Let_def)

lemma fromDSN_case_Compression:
  "Compression (fromDSN_case ps k v) =
     (if k = ''compress'' \<and> fst (strconv_ParseBool (Values_Get ps ''compress''))
      then Some \<lparr>Method = CompressionLZ4\<rparr> else Compression v)"
  by (simp add: fromDSN_case_def Let_def)

lemma fromDSN_case_Addr: "Addr (fromDSN_case ps k v) = Addr v"
  by (simp add: fromDSN_case_def Let_def)

lemma fold_fromDSN_case_Debug:
  "Debug (fold (fromDSN_case ps) ks v) =
     (if ''debug'' \<in> set ks then fst (strconv_ParseBool (Values_Get ps ''debug'')) else Debug v)"
  by (induction ks arbitrary: v) (auto simp add: fromDSN_case_Debug)

lemma fold_fromDSN_case_Compression:
  "Compression (fold (fromDSN_case ps) ks v) =
     (if ''compress'' \<in> set ks \<and> fst (strconv_ParseBool (Values_Get ps ''compress''))
      then Some \<lparr>Method = CompressionLZ4\<rparr> else Compression v)"
  by (induction ks arbitrary: v) (auto simp add: fromDSN_case_Compression)

lemma fold_fromDSN_case_Addr: "Addr (fold (fromDSN_case ps) ks v) = Addr v"
  by (induction ks arbitrary: v) (simp_all add: fromDSN_case_Addr)

lemma setDefaults_keeps:
  "Debug (setDefaults v) = Debug v"
  "Compression (setDefaults v) = Compression v"
  "Addr (setDefaults v) = Addr v"
  by (simp_all add: setDefaults_def Let_def)

text \<open>
  Go visits the keys of a map in no fixed order. The order makes no difference to
  \<^verbatim>\<open>fromDSN\<close>: the body of its loop writes one field per key.
\<close>

lemma fromDSN_case_fields:
  "fromDSN_case ps k v =
     v\<lparr>Debug := (if k = ''debug'' then fst (strconv_ParseBool (Values_Get ps ''debug''))
                 else Debug v),
       Compression := (if k = ''compress'' \<and> fst (strconv_ParseBool (Values_Get ps ''compress''))
                       then Some \<lparr>Method = CompressionLZ4\<rparr> else Compression v)\<rparr>"
  by (simp add: fromDSN_case_def Let_def)

lemma fromDSN_case_commute:
  "fromDSN_case ps a (fromDSN_case ps b v) = fromDSN_case ps b (fromDSN_case ps a v)"
  unfolding fromDSN_case_fields
  by (cases "a = ''debug''"; cases "b = ''debug''"; cases "a = ''compress''";
      cases "b = ''compress''"; simp)

lemma fromDSN_any_order:
  assumes "mset ks = mset (map fst ps)"
  shows "fold (fromDSN_case ps) ks v = fold (fromDSN_case ps) (map fst ps) v"
proof -
  have "fold (fromDSN_case ps) ks = fold (fromDSN_case ps) (map fst ps)"
    by (rule fold_multiset_equiv) (auto simp add: fromDSN_case_commute assms)
  then show ?thesis by simp
qed

text \<open>
  C9 (as amended). When \<^verbatim>\<open>url.Parse\<close> rejects the connection string, \<^verbatim>\<open>fromDSN\<close>
  returns that error and leaves the options as they were. Otherwise it returns no error,
  appends the host to the address list, sets the compression method to LZ4 when the query
  has \<^verbatim>\<open>compress\<close> with a value that \<^verbatim>\<open>ParseBool\<close> reads as true, and sets the debug
  flag to what \<^verbatim>\<open>ParseBool\<close> reads from \<^verbatim>\<open>debug\<close>. \<^verbatim>\<open>ParseBool\<close> reads
  \<^verbatim>\<open>1 t T TRUE true True\<close> as true and \<^verbatim>\<open>0 f F FALSE false False\<close> as false; any other
  spelling counts as false and its error is dropped.
\<close>

theorem fromDSN_parses:
  "(\<forall>e. url_Parse inp = Inl e \<longrightarrow> fromDSN url_Parse inp opts = (Some e, opts)) \<and>
   (\<forall>dsn. url_Parse inp = Inr dsn \<longrightarrow>
      fst (fromDSN url_Parse inp opts) = None \<and>
      Addr (snd (fromDSN url_Parse inp opts)) = Addr opts @ [Host dsn] \<and>
      (''compress'' \<in> fst ` set (Query dsn) \<and>
       fst (strconv_ParseBool (Values_Get (Query dsn) ''compress'')) \<longrightarrow>
         Compression (snd (fromDSN url_Parse inp opts)) = Some \<lparr>Method = compress_LZ4\<rparr>) \<and>
      (''debug'' \<in> fst ` set (Query dsn) \<longrightarrow>
         Debug (snd (fromDSN url_Parse inp opts)) =
           fst (strconv_ParseBool (Values_Get (Query dsn) ''debug'')))) \<and>
   (\<forall>str \<in> set [''1'', ''t'', ''T'', ''TRUE'', ''true'', ''True''].
      strconv_ParseBool str = (True, None)) \<and>
   (\<forall>str \<in> set [''0'', ''f'', ''F'', ''FALSE'', ''false'', ''False''].
      strconv_ParseBool str = (False, None)) \<and>
   (\<forall>str. str \<notin> set [''1'', ''t'', ''T'', ''TRUE'', ''true'', ''True''] \<longrightarrow>
      fst (strconv_ParseBool str) = False)"
proof -
  have a: "\<forall>e. url_Parse inp = Inl e \<longrightarrow> fromDSN url_Parse inp opts = (Some e, opts)"
    by (simp add: fromDSN_def)
  have b: "\<forall>dsn. url_Parse inp = Inr dsn \<longrightarrow>
      fst (fromDSN url_Parse inp opts) = None \<and>
      Addr (snd (fromDSN url_Parse inp opts)) = Addr opts @ [Host dsn] \<and>
      (''compress'' \<in> fst ` set (Query dsn) \<and>
       fst (strconv_ParseBool (Values_Get (Query dsn) ''compress'')) \<longrightarrow>
         Compression (snd (fromDSN url_Parse inp opts)) = Some \<lparr>Method = compress_LZ4\<rparr>) \<and>
      (''debug'' \<in> fst ` set (Query dsn) \<longrightarrow>
         Debug (snd (fromDSN url_Parse inp opts)) =
           fst (strconv_ParseBool (Values_Get (Query dsn) ''debug'')))"
    by (simp add: fromDSN_def Let_def setDefaults_keeps fold_fromDSN_case_Debug
        fold_fromDSN_case_Compression fold_fromDSN_case_Addr CompressionLZ4_def)
  have c: "\<forall>str \<in> set [''1'', ''t'', ''T'', ''TRUE'', ''true'', ''True''].
      strconv_ParseBool str = (True, None)"
    by (simp add: strconv_ParseBool_def)
  have d: "\<forall>str \<in> set [''0'', ''f'', ''F'', ''FALSE'', ''false'', ''False''].
      strconv_ParseBool str = (False, None)"
    by (simp add: strconv_ParseBool_def)
  have e: "\<forall>str. str \<notin> set [''1'', ''t'', ''T'', ''TRUE'', ''true'', ''True''] \<longrightarrow>
      fst (strconv_ParseBool str) = False"
    by (simp add: strconv_ParseBool_def)
  from a b c d e show ?thesis by blast
qed

text \<open>
  A connection string with \<^verbatim>\<open>compress=true\<close> and \<^verbatim>\<open>debug=T\<close> gives LZ4 and the debug
  flag, without an error; a string that \<^verbatim>\<open>url.Parse\<close> rejects gives the error and the
  options untouched.
\<close>

theorem fromDSN_parses_witness:
  "fst (fromDSN url_Parse_sample ''clickhouse://127.0.0.1:9000?compress=true&debug=T''
          Options_zero) = None \<and>
   Addr (snd (fromDSN url_Parse_sample ''clickhouse://127.0.0.1:9000?compress=true&debug=T''
          Options_zero)) = [''127.0.0.1:9000''] \<and>
   Compression (snd (fromDSN url_Parse_sample
          ''clickhouse://127.0.0.1:9000?compress=true&debug=T'' Options_zero)) =
     Some \<lparr>Method = compress_LZ4\<rparr> \<and>
   Debug (snd (fromDSN url_Parse_sample ''clickhouse://127.0.0.1:9000?compress=true&debug=T''
          Options_zero)) = True \<and>
   fromDSN url_Parse_sample ''://127.0.0.1:9000'' Options_zero =
     (Some (Failure ''parse: missing protocol scheme''), Options_zero) \<and>
   strconv_ParseBool ''TRUE'' = (True, None) \<and> strconv_ParseBool ''0'' = (False, None) \<and>
   fst (strconv_ParseBool ''maybe'') = False"
proof -
  have p: "url_Parse_sample ''clickhouse://127.0.0.1:9000?compress=true&debug=T'' =
      Inr \<lparr>Host = ''127.0.0.1:9000'',
           Query = [(''compress'', [''true'']), (''debug'', [''T''])]\<rparr>"
    by (simp add: url_Parse_sample_def)
  have q: "url_Parse_sample ''://127.0.0.1:9000'' = Inl (Failure ''parse: missing protocol scheme'')"
    by (simp add: url_Parse_sample_def)
  have g: "Values_Get [(''compress'', [''true'']), (''debug'', [''T''])] ''compress'' = ''true''"
    "Values_Get [(''compress'', [''true'']), (''debug'', [''T''])] ''debug'' = ''T''"
    by (simp_all add: Values_Get_def)
  show ?thesis
    using fromDSN_parses [of url_Parse_sample
        "''clickhouse://127.0.0.1:9000?compress=true&debug=T''" Options_zero]
      fromDSN_parses [of url_Parse_sample "''://127.0.0.1:9000''" Options_zero]
    by (simp add: p q g Options_zero_def)
qed

text \<open>
  Against C9 as stated: \<^verbatim>\<open>debug=maybe\<close> is a malformed boolean and raises no error, and
  \<^verbatim>\<open>dial_timeout=5s\<close> leaves the dial timeout at its default of one second: the result
  is that of the connection string without any option.
\<close>

theorem fromDSN_drops_options:
  "fst (fromDSN url_Parse_sample ''clickhouse://127.0.0.1:9000?debug=maybe&dial_timeout=5s''
          Options_zero) = None \<and>
   DialTimeout (snd (fromDSN url_Parse_sample
          ''clickhouse://127.0.0.1:9000?debug=maybe&dial_timeout=5s'' Options_zero)) =
     1000000000 \<and>
   fromDSN url_Parse_sample ''clickhouse://127.0.0.1:9000?debug=maybe&dial_timeout=5s''
     Options_zero =
   fromDSN url_Parse_sample ''clickhouse://127.0.0.1:9000'' Options_zero"
  by (simp add: fromDSN_def url_Parse_sample_def fromDSN_case_def Values_Get_def
      strconv_ParseBool_def Options_zero_def setDefaults_def time_Second_def)

section \<open>Select statements\<close>

lemma select_one_default: "select pick [b] True = (if b then Comm 0 else Default)"
  by (simp add: select_def)

lemma select_two:
  "select pick [a, b] d =
     (if a \<and> b then Comm (pick mod 2)
      else if a then Comm 0
      else if b then Comm 1
      else if d then Default else Wait)"
proof -
  have "[0, Suc 0] ! (pick mod 2) = pick mod 2"
    by (cases "even pick") (simp_all add: mod2_eq_if)
  then show ?thesis
    by (simp add: select_def numeral_2_eq_2)
qed

lemma acquire_select1_eq:
  "acquire_select1 timer now pick ch =
     (if timer_C timer now \<and> open ch < open_cap ch then
        (if even pick then Returns (Some (None, Some EOF), ch)
         else Returns (None, ch\<lparr>open := open ch + 1\<rparr>))
      else if timer_C timer now then Returns (Some (None, Some EOF), ch)
      else if open ch < open_cap ch then Returns (None, ch\<lparr>open := open ch + 1\<rparr>)
      else Blocks)"
  by (simp add: acquire_select1_def select_two mod2_eq_if)

lemma acquire_select2_eq:
  "acquire_select2 timer now pick ch =
     (if timer_C timer now \<and> idle ch \<noteq> [] then
        (if even pick then Returns (Some (None, Some EOF), ch)
         else Returns (Some (Some (hd (idle ch)), None), ch\<lparr>idle := tl (idle ch)\<rparr>))
      else if timer_C timer now then Returns (Some (None, Some EOF), ch)
      else if idle ch \<noteq> [] then
        Returns (Some (Some (hd (idle ch)), None), ch\<lparr>idle := tl (idle ch)\<rparr>)
      else Returns (None, ch))"
  by (simp add: acquire_select2_def select_two mod2_eq_if)

lemma release_select1_eq: "release_select1 pick ch = Returns (ch\<lparr>open := open ch - 1\<rparr>)"
  by (cases "open ch") (simp_all add: release_select1_def select_one_default)

lemma release_conn_eq:
  assumes "c < length (connects s)" and "options s (opt ch) = Some v"
  shows "release_conn now pick (Some c) (ch, s) =
     Returns (if err (connects s ! c) \<noteq> None
                 \<or> sint (ConnMaxLifetime v) \<le> time_Since now (connectedAt (connects s ! c))
                 \<or> idle_cap ch \<le> length (idle ch)
              then (ch, close c s)
              else (ch\<lparr>idle := idle ch @ [c]\<rparr>, s))"
  using assms by (auto simp add: release_conn_def select_one_default)

section \<open>release\<close>

text \<open>
  C5. \<^verbatim>\<open>release(conn)\<close> on a session of the store always returns, whatever the
  channels hold: it never blocks. It first takes one permit out of \<^verbatim>\<open>ch.open\<close> (none
  when there is none). Then a session whose error is set, or whose age \<open>now - connectedAt\<close>
  has reached the configured lifetime, or that finds the idle queue full, is closed and the
  idle queue stays as it was; any other session goes to the end of the idle queue, unclosed.
\<close>

theorem release_frees_then_recycles:
  assumes "c < length (connects s)" and "options s (opt ch) = Some v"
  shows "release now draw1 draw2 (Some c) (ch, s) =
     Returns (if err (connects s ! c) \<noteq> None
                 \<or> sint (ConnMaxLifetime v) \<le> time_Since now (connectedAt (connects s ! c))
                 \<or> idle_cap ch \<le> length (idle ch)
              then (ch\<lparr>open := open ch - 1\<rparr>, close c s)
              else (ch\<lparr>open := open ch - 1, idle := idle ch @ [c]\<rparr>, s))"
  using assms by (simp add: release_def release_select1_eq release_conn_eq)

text \<open>
  A healthy session one minute old returns to the idle queue of the sample pool and gives
  its permit back.
\<close>

theorem release_frees_then_recycles_witness:
  "release 60000000000 0 0 (Some 0)
     (pool_sample\<lparr>open := 1\<rparr>,
      (store_sample [''good:9000''])
        \<lparr>connects := [\<lparr>err = None, connectedAt = 0\<rparr>]\<rparr>) =
   Returns (pool_sample\<lparr>open := 0, idle := [0]\<rparr>,
      (store_sample [''good:9000''])
        \<lparr>connects := [\<lparr>err = None, connectedAt = 0\<rparr>]\<rparr>)"
proof -
  have o: "options ((store_sample [''good:9000''])
        \<lparr>connects := [\<lparr>err = None, connectedAt = 0\<rparr>]\<rparr>)
      (opt (pool_sample\<lparr>open := 1\<rparr>)) =
      Some (setDefaults (Options_zero\<lparr>Addr := [''good:9000'']\<rparr>))"
    by (simp add: store_sample_def pool_sample_def)
  have l: "ConnMaxLifetime (setDefaults (Options_zero\<lparr>Addr := [''good:9000'']\<rparr>)) = time_Hour"
    by (simp add: setDefaults_ConnMaxLifetime Options_zero_def)
  show ?thesis
    using release_frees_then_recycles [OF _ o, of 0 60000000000 0 0]
    by (simp add: l time_Hour_def time_Since_def pool_sample_def)
qed

section \<open>acquire\<close>

lemma dial_loop_first:
  "\<forall>b\<in>set pre. isl (dial b num v) \<Longrightarrow> dial a num v = Inr c \<Longrightarrow>
   dial_loop dial num v (pre @ a # post) (r, s) =
     ((Some (length (connects s)), None), s\<lparr>connects := connects s @ [c]\<rparr>)"
  by (induction pre arbitrary: r) (auto split: sum.splits)

lemma dial_loop_all_fail:
  "addrs \<noteq> [] \<Longrightarrow> \<forall>b\<in>set addrs. isl (dial b num v) \<Longrightarrow>
   dial_loop dial num v addrs (r, s) = ((None, Some (projl (dial (last addrs) num v))), s)"
proof (induction addrs arbitrary: r)
  case Nil
  then show ?case by simp
next
  case (Cons a addrs)
  then obtain e where e: "dial a num v = Inl e" by (cases "dial a num v") auto
  show ?case
  proof (cases "addrs = []")
    case True
    then show ?thesis using e by simp
  next
    case False
    then show ?thesis using e Cons by simp
  qed
qed

lemma acquire_to_dial:
  assumes "acquire_select1 (timer_at e) (select1_at e) (pick1 e) ch = Returns (None, ch1)"
      and "acquire_select2 (timer_at e) (select2_at e) (pick2 e) ch1 = Returns (None, ch2)"
  shows "acquire dial e (ch, s) = acquire_dial dial (ch\<lparr>open := open ch + 1\<rparr>, s)"
  using assms
  by (auto simp add: acquire_def acquire_select1_eq acquire_select2_eq split: if_splits)

text \<open>
  C6. When \<^verbatim>\<open>acquire\<close> must dial (its first \<^verbatim>\<open>select\<close> sent the permit, its second
  took the default case) it tries the configured addresses in order. If an address dials
  after all addresses before it failed, \<^verbatim>\<open>acquire\<close> returns that new session and a nil
  error. If the list is not empty and every address fails, it returns no session and the
  error of the last address.
\<close>

theorem acquire_dials_in_order:
  assumes "acquire_select1 (timer_at e) (select1_at e) (pick1 e) ch = Returns (None, ch1)"
      and "acquire_select2 (timer_at e) (select2_at e) (pick2 e) ch1 = Returns (None, ch2)"
      and "options s (opt ch) = Some v"
  shows "(\<forall>pre a post c.
            Addr v = pre @ a # post \<and> (\<forall>b\<in>set pre. isl (dial b (counter ch + 1) v)) \<and>
            dial a (counter ch + 1) v = Inr c \<longrightarrow>
            acquire dial e (ch, s) =
              Returns ((Some (length (connects s)), None),
                       ch\<lparr>open := open ch + 1, counter := counter ch + 1\<rparr>,
                       s\<lparr>connects := connects s @ [c]\<rparr>)) \<and>
         (Addr v \<noteq> [] \<and> (\<forall>b\<in>set (Addr v). isl (dial b (counter ch + 1) v)) \<longrightarrow>
            acquire dial e (ch, s) =
              Returns ((None, Some (projl (dial (last (Addr v)) (counter ch + 1) v))),
                       ch\<lparr>open := open ch + 1, counter := counter ch + 1\<rparr>, s))"
proof -
  have eq: "acquire dial e (ch, s) = acquire_dial dial (ch\<lparr>open := open ch + 1\<rparr>, s)"
    using assms(1,2) by (rule acquire_to_dial)
  show ?thesis
    unfolding eq using assms(3)
    by (auto simp add: acquire_dial_def dial_loop_first dial_loop_all_fail)
qed

text \<open>
  With the addresses \<^verbatim>\<open>[bad1, bad2, good]\<close> the sample pool gets the session dialed at
  the third address and no error; with \<^verbatim>\<open>[bad1, bad2]\<close> it gets the error of \<^verbatim>\<open>bad2\<close>.
\<close>

theorem acquire_dials_in_order_witness:
  "acquire dial_sample
     \<lparr>timer_at = 0, select1_at = 0, pick1 = 0, select2_at = 0, pick2 = 0\<rparr>
     (pool_sample, store_sample [''bad1:9000'', ''bad2:9000'', ''good:9000'']) =
   Returns ((Some 0, None), pool_sample\<lparr>open := 1, counter := 1\<rparr>,
            (store_sample [''bad1:9000'', ''bad2:9000'', ''good:9000''])
              \<lparr>connects := [\<lparr>err = None, connectedAt = 0\<rparr>]\<rparr>) \<and>
   acquire dial_sample
     \<lparr>timer_at = 0, select1_at = 0, pick1 = 0, select2_at = 0, pick2 = 0\<rparr>
     (pool_sample, store_sample [''bad1:9000'', ''bad2:9000'']) =
   Returns ((None, Some (Failure ''dial tcp bad2:9000: connection refused'')),
            pool_sample\<lparr>open := 1, counter := 1\<rparr>,
            store_sample [''bad1:9000'', ''bad2:9000''])"
proof -
  let ?e = "\<lparr>timer_at = 0, select1_at = 0, pick1 = 0, select2_at = 0, pick2 = 0\<rparr>"
  have s1: "acquire_select1 (timer_at ?e) (select1_at ?e) (pick1 ?e) pool_sample =
      Returns (None, pool_sample\<lparr>open := 1\<rparr>)"
    by (simp add: acquire_select1_eq timer_C_def time_Second_def pool_sample_def)
  have s2: "acquire_select2 (timer_at ?e) (select2_at ?e) (pick2 ?e) (pool_sample\<lparr>open := 1\<rparr>) =
      Returns (None, pool_sample\<lparr>open := 1\<rparr>)"
    by (simp add: acquire_select2_eq timer_C_def time_Second_def pool_sample_def)
  have o: "options (store_sample addrs) (opt pool_sample) =
      Some (setDefaults (Options_zero\<lparr>Addr := addrs\<rparr>))" for addrs
    by (simp add: store_sample_def pool_sample_def)
  have a: "Addr (setDefaults (Options_zero\<lparr>Addr := addrs\<rparr>)) = addrs" for addrs
    by (simp add: setDefaults_keeps)
  have good: "acquire dial_sample ?e
     (pool_sample, store_sample [''bad1:9000'', ''bad2:9000'', ''good:9000'']) =
   Returns ((Some 0, None), pool_sample\<lparr>open := 1, counter := 1\<rparr>,
            (store_sample [''bad1:9000'', ''bad2:9000'', ''good:9000''])
              \<lparr>connects := [\<lparr>err = None, connectedAt = 0\<rparr>]\<rparr>)"
    using acquire_dials_in_order [where dial = dial_sample,
        OF s1 s2 o [of "[''bad1:9000'', ''bad2:9000'', ''good:9000'']"]]
    apply (simp add: a)
    apply (drule conjunct1)
    apply (drule spec [of _ "[''bad1:9000'', ''bad2:9000'']"])
    apply (drule spec [of _ "''good:9000''"])
    apply (simp add: dial_sample_def store_sample_def pool_sample_def)
    done
  have bad: "acquire dial_sample ?e (pool_sample, store_sample [''bad1:9000'', ''bad2:9000'']) =
   Returns ((None, Some (Failure ''dial tcp bad2:9000: connection refused'')),
            pool_sample\<lparr>open := 1, counter := 1\<rparr>,
            store_sample [''bad1:9000'', ''bad2:9000''])"
    using acquire_dials_in_order [where dial = dial_sample,
        OF s1 s2 o [of "[''bad1:9000'', ''bad2:9000'']"]]
    apply (simp add: a)
    apply (drule conjunct2)
    apply (simp add: dial_sample_def pool_sample_def)
    done
  from good bad show ?thesis by simp
qed

text \<open>
  How the pool of one permit gets busy: \<^verbatim>\<open>Open\<close>, one \<^verbatim>\<open>acquire\<close> while the address
  accepts connections, and an operation that fails on the session.
\<close>

lemma pool_busy_reached:
  "Open (2 ^ 48) 0
     \<lparr>options = [0 \<mapsto> Options_zero\<lparr>Addr := [''db:9000''], MaxOpenConns := 1\<rparr>],
      connects = [], closed = []\<rparr> =
     Returns ((Some (pool_busy\<lparr>open := 0, counter := 0\<rparr>), None), store_busy\<lparr>connects := []\<rparr>)"
  "acquire (\<lambda>addr num v. Inr \<lparr>err = None, connectedAt = 0\<rparr>)
     \<lparr>timer_at = 0, select1_at = 0, pick1 = 0, select2_at = 0, pick2 = 0\<rparr>
     (pool_busy\<lparr>open := 0, counter := 0\<rparr>, store_busy\<lparr>connects := []\<rparr>) =
     Returns ((Some 0, None), pool_busy,
              store_busy\<lparr>connects := [\<lparr>err = None, connectedAt = 0\<rparr>]\<rparr>)"
  "(store_busy\<lparr>connects := [\<lparr>err = None, connectedAt = 0\<rparr>]\<rparr>)
     \<lparr>connects := [\<lparr>err = None, connectedAt = 0\<rparr>]
        [0 := ([\<lparr>err = None, connectedAt = 0\<rparr>] ! 0)\<lparr>err := Some (Failure ''broken pipe'')\<rparr>]\<rparr> =
   store_busy"
  by (simp_all add: Open_def makechan_def acquire_def acquire_select1_eq acquire_select2_eq
      timer_C_def time_Second_def pool_busy_def store_busy_def acquire_dial_def
      setDefaults_def Options_zero_def)

text \<open>
  The release of the healthy session, one minute after it was dialed, and the release of
  the broken one.
\<close>

lemma pool_idle_reached:
  "release 60000000000 0 0 (Some 0) (pool_busy, store_idle) = Returns (pool_idle, store_idle)"
  "release 600000000 0 0 (Some 0) (pool_busy, store_busy) =
     Returns (pool_busy\<lparr>open := 0\<rparr>, close 0 store_busy)"
  by (simp_all add: release_def release_select1_eq release_conn_def select_one_default
      pool_busy_def pool_idle_def store_idle_def store_busy_def setDefaults_def
      Options_zero_def time_Hour_def time_Since_def)

text \<open>
  C7 (as amended). \<^verbatim>\<open>acquire\<close> waits on the pool in its first \<^verbatim>\<open>select\<close> only, and
  exactly while no permit is free and its one-second timer has not fired. Once the timer
  has fired, a call that finds no permit returns \<^verbatim>\<open>io.EOF\<close> and leaves the pool as it
  was; a call that finds a permit returns \<^verbatim>\<open>io.EOF\<close> or, when one is queued, the oldest
  idle session. A call that finds a permit before the deadline goes on at once. If its
  second \<^verbatim>\<open>select\<close> is decided before the deadline too, it returns the oldest idle
  session with a nil error when one is queued, and otherwise what dialing gives. If the
  timer fires between the two \<^verbatim>\<open>select\<close> statements, it returns \<^verbatim>\<open>io.EOF\<close> when no idle
  session is queued, and \<^verbatim>\<open>io.EOF\<close> or the oldest idle session when one is. The deadline
  bounds the waiting on the channels; \<^verbatim>\<open>dial\<close> is a parameter here and the time it takes
  is not part of the statement.
\<close>

theorem acquire_waits_until_deadline:
  "(acquire dial e (ch, s) = Blocks \<longleftrightarrow>
      select1_at e < timer_at e + 1000000000 \<and> open_cap ch \<le> open ch) \<and>
   (timer_at e + 1000000000 \<le> select1_at e \<and> open_cap ch \<le> open ch \<longrightarrow>
      acquire dial e (ch, s) = Returns ((None, Some EOF), ch, s)) \<and>
   (timer_at e + 1000000000 \<le> select1_at e \<and> select1_at e \<le> select2_at e \<and>
    open ch < open_cap ch \<longrightarrow>
      (\<exists>ch' s'. acquire dial e (ch, s) = Returns ((None, Some EOF), ch', s')) \<or>
      idle ch \<noteq> [] \<and>
      acquire dial e (ch, s) =
        Returns ((Some (hd (idle ch)), None),
                 ch\<lparr>open := open ch + 1, idle := tl (idle ch)\<rparr>, s)) \<and>
   (select1_at e < timer_at e + 1000000000 \<and> open ch < open_cap ch \<and>
    select2_at e < timer_at e + 1000000000 \<and> idle ch \<noteq> [] \<longrightarrow>
      acquire dial e (ch, s) =
        Returns ((Some (hd (idle ch)), None),
                 ch\<lparr>open := open ch + 1, idle := tl (idle ch)\<rparr>, s)) \<and>
   (select1_at e < timer_at e + 1000000000 \<and> open ch < open_cap ch \<and>
    select2_at e < timer_at e + 1000000000 \<and> idle ch = [] \<longrightarrow>
      acquire dial e (ch, s) = acquire_dial dial (ch\<lparr>open := open ch + 1\<rparr>, s)) \<and>
   (select1_at e < timer_at e + 1000000000 \<and> open ch < open_cap ch \<and>
    timer_at e + 1000000000 \<le> select2_at e \<and> idle ch = [] \<longrightarrow>
      (\<exists>ch' s'. acquire dial e (ch, s) = Returns ((None, Some EOF), ch', s'))) \<and>
   (select1_at e < timer_at e + 1000000000 \<and> open ch < open_cap ch \<and>
    timer_at e + 1000000000 \<le> select2_at e \<and> idle ch \<noteq> [] \<longrightarrow>
      (\<exists>ch' s'. acquire dial e (ch, s) = Returns ((None, Some EOF), ch', s')) \<or>
      acquire dial e (ch, s) =
        Returns ((Some (hd (idle ch)), None),
                 ch\<lparr>open := open ch + 1, idle := tl (idle ch)\<rparr>, s))"
proof -
  have sec: "sint time_Second = 1000000000" by (simp add: time_Second_def)
  have nb: "acquire_dial dial cs \<noteq> Blocks" for cs
    by (cases cs) (simp add: acquire_dial_def Let_def split: option.splits prod.splits)
  have c1: "acquire dial e (ch, s) = Blocks \<longleftrightarrow>
      select1_at e < timer_at e + 1000000000 \<and> open_cap ch \<le> open ch"
    using nb
    by (auto simp add: acquire_def acquire_select1_eq acquire_select2_eq timer_C_def sec
        split: if_splits)
  have c2: "timer_at e + 1000000000 \<le> select1_at e \<and> open_cap ch \<le> open ch \<longrightarrow>
      acquire dial e (ch, s) = Returns ((None, Some EOF), ch, s)"
    by (auto simp add: acquire_def acquire_select1_eq timer_C_def sec)
  have c3: "timer_at e + 1000000000 \<le> select1_at e \<and> select1_at e \<le> select2_at e \<and>
    open ch < open_cap ch \<longrightarrow>
      (\<exists>ch' s'. acquire dial e (ch, s) = Returns ((None, Some EOF), ch', s')) \<or>
      idle ch \<noteq> [] \<and>
      acquire dial e (ch, s) =
        Returns ((Some (hd (idle ch)), None),
                 ch\<lparr>open := open ch + 1, idle := tl (idle ch)\<rparr>, s)"
    by (auto simp add: acquire_def acquire_select1_eq acquire_select2_eq timer_C_def sec)
  have c4: "select1_at e < timer_at e + 1000000000 \<and> open ch < open_cap ch \<and>
    select2_at e < timer_at e + 1000000000 \<and> idle ch \<noteq> [] \<longrightarrow>
      acquire dial e (ch, s) =
        Returns ((Some (hd (idle ch)), None),
                 ch\<lparr>open := open ch + 1, idle := tl (idle ch)\<rparr>, s)"
    by (auto simp add: acquire_def acquire_select1_eq acquire_select2_eq timer_C_def sec)
  have c5: "select1_at e < timer_at e + 1000000000 \<and> open ch < open_cap ch \<and>
    select2_at e < timer_at e + 1000000000 \<and> idle ch = [] \<longrightarrow>
      acquire dial e (ch, s) = acquire_dial dial (ch\<lparr>open := open ch + 1\<rparr>, s)"
    by (auto simp add: acquire_def acquire_select1_eq acquire_select2_eq timer_C_def sec)
  have c6: "select1_at e < timer_at e + 1000000000 \<and> open ch < open_cap ch \<and>
    timer_at e + 1000000000 \<le> select2_at e \<and> idle ch = [] \<longrightarrow>
      (\<exists>ch' s'. acquire dial e (ch, s) = Returns ((None, Some EOF), ch', s'))"
    by (auto simp add: acquire_def acquire_select1_eq acquire_select2_eq timer_C_def sec)
  have c7: "select1_at e < timer_at e + 1000000000 \<and> open ch < open_cap ch \<and>
    timer_at e + 1000000000 \<le> select2_at e \<and> idle ch \<noteq> [] \<longrightarrow>
      (\<exists>ch' s'. acquire dial e (ch, s) = Returns ((None, Some EOF), ch', s')) \<or>
      acquire dial e (ch, s) =
        Returns ((Some (hd (idle ch)), None),
                 ch\<lparr>open := open ch + 1, idle := tl (idle ch)\<rparr>, s)"
    by (auto simp add: acquire_def acquire_select1_eq acquire_select2_eq timer_C_def sec)
  from c1 c2 c3 c4 c5 c6 c7 show ?thesis by blast
qed

text \<open>
  On the pool of one permit. With the permit out, \<^verbatim>\<open>acquire\<close> waits at half a second
  and returns \<^verbatim>\<open>io.EOF\<close> at one second. With the permit free and the healthy session 0
  idle, a call decided at 0.7 seconds returns session 0; decided at 0.9 and 1 second, or at
  1 and 1.1 seconds, it returns \<^verbatim>\<open>io.EOF\<close> or session 0. With the permit free and no
  idle session (the broken session was released), a call decided at 0.7 seconds does what
  the dial loop does, and a call decided at 0.7 and 1 second returns \<^verbatim>\<open>io.EOF\<close>.
\<close>

theorem acquire_waits_until_deadline_witness:
  "acquire dial_sample
     \<lparr>timer_at = 0, select1_at = 500000000, pick1 = 0, select2_at = 500000000, pick2 = 0\<rparr>
     (pool_busy, store_busy) = Blocks \<and>
   acquire dial_sample
     \<lparr>timer_at = 0, select1_at = 1000000000, pick1 = 0, select2_at = 1000000000, pick2 = 0\<rparr>
     (pool_busy, store_busy) = Returns ((None, Some EOF), pool_busy, store_busy) \<and>
   ((\<exists>ch' s'. acquire dial_sample
       \<lparr>timer_at = 0, select1_at = 1000000000, pick1 = 0, select2_at = 1100000000, pick2 = 0\<rparr>
       (pool_idle, store_idle) = Returns ((None, Some EOF), ch', s')) \<or>
    acquire dial_sample
       \<lparr>timer_at = 0, select1_at = 1000000000, pick1 = 0, select2_at = 1100000000, pick2 = 0\<rparr>
       (pool_idle, store_idle) =
       Returns ((Some 0, None), pool_idle\<lparr>open := 1, idle := []\<rparr>, store_idle)) \<and>
   acquire dial_sample
     \<lparr>timer_at = 0, select1_at = 700000000, pick1 = 0, select2_at = 700000000, pick2 = 0\<rparr>
     (pool_idle, store_idle) =
     Returns ((Some 0, None), pool_idle\<lparr>open := 1, idle := []\<rparr>, store_idle) \<and>
   acquire dial_sample
     \<lparr>timer_at = 0, select1_at = 700000000, pick1 = 0, select2_at = 700000000, pick2 = 0\<rparr>
     (pool_busy\<lparr>open := 0\<rparr>, close 0 store_busy) =
     acquire_dial dial_sample (pool_busy, close 0 store_busy) \<and>
   (\<exists>ch' s'. acquire dial_sample
       \<lparr>timer_at = 0, select1_at = 700000000, pick1 = 0, select2_at = 1000000000, pick2 = 0\<rparr>
       (pool_busy\<lparr>open := 0\<rparr>, close 0 store_busy) = Returns ((None, Some EOF), ch', s')) \<and>
   ((\<exists>ch' s'. acquire dial_sample
       \<lparr>timer_at = 0, select1_at = 900000000, pick1 = 0, select2_at = 1000000000, pick2 = 0\<rparr>
       (pool_idle, store_idle) = Returns ((None, Some EOF), ch', s')) \<or>
    acquire dial_sample
       \<lparr>timer_at = 0, select1_at = 900000000, pick1 = 0, select2_at = 1000000000, pick2 = 0\<rparr>
       (pool_idle, store_idle) =
       Returns ((Some 0, None), pool_idle\<lparr>open := 1, idle := []\<rparr>, store_idle))"
proof -
  have p: "open pool_busy = 1" "open_cap pool_busy = 1" "idle pool_busy = []"
    "open pool_idle = 0" "open_cap pool_idle = 1" "idle pool_idle = [0]"
    by (simp_all add: pool_busy_def pool_idle_def)
  have w1: "acquire dial_sample
     \<lparr>timer_at = 0, select1_at = 500000000, pick1 = 0, select2_at = 500000000, pick2 = 0\<rparr>
     (pool_busy, store_busy) = Blocks"
    using acquire_waits_until_deadline [of dial_sample
        "\<lparr>timer_at = 0, select1_at = 500000000, pick1 = 0, select2_at = 500000000, pick2 = 0\<rparr>"
        pool_busy store_busy]
    by (simp add: p)
  have w2: "acquire dial_sample
     \<lparr>timer_at = 0, select1_at = 1000000000, pick1 = 0, select2_at = 1000000000, pick2 = 0\<rparr>
     (pool_busy, store_busy) = Returns ((None, Some EOF), pool_busy, store_busy)"
    using acquire_waits_until_deadline [of dial_sample
        "\<lparr>timer_at = 0, select1_at = 1000000000, pick1 = 0, select2_at = 1000000000, pick2 = 0\<rparr>"
        pool_busy store_busy]
    by (simp add: p)
  have w3: "(\<exists>ch' s'. acquire dial_sample
       \<lparr>timer_at = 0, select1_at = 1000000000, pick1 = 0, select2_at = 1100000000, pick2 = 0\<rparr>
       (pool_idle, store_idle) = Returns ((None, Some EOF), ch', s')) \<or>
    acquire dial_sample
       \<lparr>timer_at = 0, select1_at = 1000000000, pick1 = 0, select2_at = 1100000000, pick2 = 0\<rparr>
       (pool_idle, store_idle) =
       Returns ((Some 0, None), pool_idle\<lparr>open := 1, idle := []\<rparr>, store_idle)"
    using acquire_waits_until_deadline [of dial_sample
        "\<lparr>timer_at = 0, select1_at = 1000000000, pick1 = 0, select2_at = 1100000000, pick2 = 0\<rparr>"
        pool_idle store_idle]
    by (simp add: p)
  have w4: "acquire dial_sample
     \<lparr>timer_at = 0, select1_at = 700000000, pick1 = 0, select2_at = 700000000, pick2 = 0\<rparr>
     (pool_idle, store_idle) =
     Returns ((Some 0, None), pool_idle\<lparr>open := 1, idle := []\<rparr>, store_idle)"
    using acquire_waits_until_deadline [of dial_sample
        "\<lparr>timer_at = 0, select1_at = 700000000, pick1 = 0, select2_at = 700000000, pick2 = 0\<rparr>"
        pool_idle store_idle]
    by (simp add: p)
  have w5: "acquire dial_sample
     \<lparr>timer_at = 0, select1_at = 700000000, pick1 = 0, select2_at = 700000000, pick2 = 0\<rparr>
     (pool_busy\<lparr>open := 0\<rparr>, close 0 store_busy) =
     acquire_dial dial_sample (pool_busy, close 0 store_busy)"
    using acquire_waits_until_deadline [of dial_sample
        "\<lparr>timer_at = 0, select1_at = 700000000, pick1 = 0, select2_at = 700000000, pick2 = 0\<rparr>"
        "pool_busy\<lparr>open := 0\<rparr>" "close 0 store_busy"]
    by (simp add: p) (simp add: pool_busy_def)
  have w6: "\<exists>ch' s'. acquire dial_sample
       \<lparr>timer_at = 0, select1_at = 700000000, pick1 = 0, select2_at = 1000000000, pick2 = 0\<rparr>
       (pool_busy\<lparr>open := 0\<rparr>, close 0 store_busy) = Returns ((None, Some EOF), ch', s')"
    using acquire_waits_until_deadline [of dial_sample
        "\<lparr>timer_at = 0, select1_at = 700000000, pick1 = 0, select2_at = 1000000000, pick2 = 0\<rparr>"
        "pool_busy\<lparr>open := 0\<rparr>" "close 0 store_busy"]
    by (simp add: p)
  have w7: "(\<exists>ch' s'. acquire dial_sample
       \<lparr>timer_at = 0, select1_at = 900000000, pick1 = 0, select2_at = 1000000000, pick2 = 0\<rparr>
       (pool_idle, store_idle) = Returns ((None, Some EOF), ch', s')) \<or>
    acquire dial_sample
       \<lparr>timer_at = 0, select1_at = 900000000, pick1 = 0, select2_at = 1000000000, pick2 = 0\<rparr>
       (pool_idle, store_idle) =
       Returns ((Some 0, None), pool_idle\<lparr>open := 1, idle := []\<rparr>, store_idle)"
    using acquire_waits_until_deadline [of dial_sample
        "\<lparr>timer_at = 0, select1_at = 900000000, pick1 = 0, select2_at = 1000000000, pick2 = 0\<rparr>"
        pool_idle store_idle]
    by (simp add: p)
  from w1 w2 w3 w4 w5 w6 w7 show ?thesis by blast
qed

text \<open>
  Against C7 as stated: all permits are out and \<^verbatim>\<open>acquire\<close> waits; 0.6 seconds after
  its start the holder releases its broken session, which frees the permit and closes the
  session; the waiting \<^verbatim>\<open>acquire\<close>, decided at 0.7 seconds, gets the permit, finds no
  idle session, dials the one address, which refuses, and returns the dial error.
\<close>

theorem acquire_unblocked_can_fail:
  "acquire dial_sample
     \<lparr>timer_at = 0, select1_at = 500000000, pick1 = 0, select2_at = 500000000, pick2 = 0\<rparr>
     (pool_busy, store_busy) = Blocks \<and>
   release 600000000 0 0 (Some 0) (pool_busy, store_busy) =
     Returns (pool_busy\<lparr>open := 0\<rparr>, close 0 store_busy) \<and>
   acquire dial_sample
     \<lparr>timer_at = 0, select1_at = 700000000, pick1 = 0, select2_at = 700000000, pick2 = 0\<rparr>
     (pool_busy\<lparr>open := 0\<rparr>, close 0 store_busy) =
     Returns ((None, Some (Failure ''dial tcp db:9000: connection refused'')),
              pool_busy\<lparr>open := 1, counter := 2\<rparr>, close 0 store_busy)"
  by (simp add: acquire_def acquire_select1_eq acquire_select2_eq timer_C_def time_Second_def
      pool_busy_def store_busy_def release_def release_select1_eq release_conn_def close_def
      acquire_dial_def dial_sample_def setDefaults_def Options_zero_def)

text \<open>
  C1 (the code at the failing inputs). On the pool that \<^verbatim>\<open>Open\<close> returns for one
  refusing address, \<^verbatim>\<open>acquire\<close> returns the dial error and leaves one permit in \<^verbatim>\<open>ch.open\<close> where there
  was none; and when the timer fires between its two \<^verbatim>\<open>select\<close> statements it returns
  \<^verbatim>\<open>io.EOF\<close> and leaves the permit there as well.
\<close>

theorem acquire_error_keeps_permit:
  "Open (2 ^ 48) 0
     \<lparr>options = [0 \<mapsto> Options_zero\<lparr>Addr := [''bad:9000'']\<rparr>], connects = [], closed = []\<rparr> =
     Returns ((Some pool_sample, None), store_sample [''bad:9000'']) \<and>
   acquire dial_sample
     \<lparr>timer_at = 0, select1_at = 0, pick1 = 0, select2_at = 0, pick2 = 0\<rparr>
     (pool_sample, store_sample [''bad:9000'']) =
   Returns ((None, Some (Failure ''dial tcp bad:9000: connection refused'')),
            pool_sample\<lparr>open := 1, counter := 1\<rparr>, store_sample [''bad:9000'']) \<and>
   acquire dial_sample
     \<lparr>timer_at = 0, select1_at = 0, pick1 = 0, select2_at = 1000000000, pick2 = 0\<rparr>
     (pool_sample, store_sample [''bad:9000'']) =
   Returns ((None, Some EOF), pool_sample\<lparr>open := 1\<rparr>, store_sample [''bad:9000''])"
  by (simp add: Open_def makechan_def acquire_def acquire_select1_eq acquire_select2_eq
      timer_C_def time_Second_def pool_sample_def store_sample_def acquire_dial_def
      dial_sample_def setDefaults_def Options_zero_def)

text \<open>
  C3 (the code at the failing input). \<^verbatim>\<open>Open\<close> accepts the zero \<^verbatim>\<open>Options\<close>, whose
  address list is empty, and returns the sample pool without an error. On that pool
  \<^verbatim>\<open>acquire\<close> takes a permit, runs its loop zero times and returns a nil session with a
  nil error, whatever \<^verbatim>\<open>dial\<close> would do; \<^verbatim>\<open>release\<close> of that nil session panics.
\<close>

theorem acquire_empty_Addr_returns_nil_nil:
  "Open (2 ^ 48) 0 \<lparr>options = [0 \<mapsto> Options_zero], connects = [], closed = []\<rparr> =
     Returns ((Some pool_sample, None), store_sample []) \<and>
   acquire dial
     \<lparr>timer_at = 0, select1_at = 0, pick1 = 0, select2_at = 0, pick2 = 0\<rparr>
     (pool_sample, store_sample []) =
     Returns ((None, None), pool_sample\<lparr>open := 1, counter := 1\<rparr>, store_sample []) \<and>
   release now 0 0 None (pool_sample\<lparr>open := 1, counter := 1\<rparr>, store_sample []) = Panics"
  by (simp add: Open_def makechan_def acquire_def acquire_select1_eq acquire_select2_eq
      timer_C_def time_Second_def pool_sample_def store_sample_def acquire_dial_def
      setDefaults_def Options_zero_def release_def release_select1_eq release_conn_def)

section \<open>Goroutines sharing one pool\<close>

lemma swap_thread:
  assumes "p \<in># T"
  obtains T' where "T = add_mset p T'" and "T - {#p#} + {#q#} = add_mset q T'"
proof -
  from assms obtain T' where "T = add_mset p T'" by (rule mset_add)
  then show ?thesis by (intro that [of T']) simp_all
qed

lemma acquire_select1_Returns:
  assumes "acquire_select1 t now pick ch = Returns (r, ch')"
  shows "(r = Some (None, Some EOF) \<and> ch' = ch) \<or>
         (r = None \<and> ch' = ch\<lparr>open := open ch + 1\<rparr> \<and> open ch < open_cap ch)"
  using assms by (auto simp add: acquire_select1_eq split: if_splits)

lemma acquire_select2_Returns:
  assumes "acquire_select2 t now pick ch = Returns (r, ch')"
  shows "(r = Some (None, Some EOF) \<and> ch' = ch) \<or>
         (r = Some (Some (hd (idle ch)), None) \<and> idle ch \<noteq> [] \<and> ch' = ch\<lparr>idle := tl (idle ch)\<rparr>) \<or>
         (r = None \<and> ch' = ch)"
  using assms by (auto simp add: acquire_select2_eq split: if_splits)

lemma dial_loop_result:
  assumes "dial_loop dial num v addrs ((None, e0), s) = ((conn, e), s')"
  shows "(conn = None \<and> s' = s) \<or>
         (conn = Some (length (connects s)) \<and> e = None \<and>
          (\<exists>c. s' = s\<lparr>connects := connects s @ [c]\<rparr>))"
  using assms
  by (induction addrs arbitrary: e0) (auto split: sum.splits)

lemma acquire_dial_Returns:
  assumes "acquire_dial dial (ch, s) = Returns ((conn, e), ch', s')"
  shows "ch' = ch\<lparr>counter := counter ch + 1\<rparr> \<and>
         ((conn = None \<and> s' = s) \<or>
          (conn = Some (length (connects s)) \<and> e = None \<and>
           (\<exists>c. s' = s\<lparr>connects := connects s @ [c]\<rparr>)))"
  using assms
  by (auto simp add: acquire_dial_def Let_def split: option.splits prod.splits
      dest: dial_loop_result)

lemma release_conn_Returns:
  assumes "release_conn now pick (Some c) (ch, s) = Returns (ch', s')"
  shows "c < length (connects s) \<and>
         ((ch' = ch \<and> s' = close c s) \<or>
          (ch' = ch\<lparr>idle := idle ch @ [c]\<rparr> \<and> s' = s \<and> length (idle ch) < idle_cap ch \<and>
           err (connects s ! c) = None))"
  using assms
  by (auto simp add: release_conn_def select_one_default split: if_splits option.splits)

lemma step_caps:
  assumes "step \<sigma> \<sigma>'"
  shows "open_cap (pool \<sigma>') = open_cap (pool \<sigma>) \<and> idle_cap (pool \<sigma>') = idle_cap (pool \<sigma>)"
  using assms
proof cases
  case (select1 t pick r ch)
  then show ?thesis by (auto dest!: acquire_select1_Returns)
next
  case (select2 t pick r ch)
  then show ?thesis by (auto dest!: acquire_select2_Returns)
next
  case (dial d conn e ch s)
  then show ?thesis by (auto dest!: acquire_dial_Returns)
next
  case (release1 c pick ch)
  then show ?thesis by (simp add: release_select1_eq) auto
next
  case (release2 c pick ch s)
  then show ?thesis by (auto dest!: release_conn_Returns)
qed simp_all

text \<open>
  A call of \<^verbatim>\<open>release\<close> or \<^verbatim>\<open>acquire\<close> that runs without interruption is a run of
  the system: two steps, and up to three steps with the clock advancing in between.
\<close>

lemma release_is_run:
  assumes "release now draw1 draw2 (Some c) (ch, s) = Returns (ch', s')"
  shows "rtranclp step
           \<lparr>pool = ch, heap = s, clock = now, threads = add_mset (Has (Some c) None) T\<rparr>
           \<lparr>pool = ch', heap = s', clock = now, threads = add_mset Outside T\<rparr>"
proof -
  let ?a = "\<lparr>pool = ch, heap = s, clock = now, threads = add_mset (Has (Some c) None) T\<rparr>"
  let ?b = "\<lparr>pool = ch\<lparr>open := open ch - 1\<rparr>, heap = s, clock = now,
             threads = add_mset (In_release c) T\<rparr>"
  let ?c = "\<lparr>pool = ch', heap = s', clock = now, threads = add_mset Outside T\<rparr>"
  from assms have r: "release_conn now draw2 (Some c) (ch\<lparr>open := open ch - 1\<rparr>, s) = Returns (ch', s')"
    by (simp add: release_def release_select1_eq)
  have ab: "step ?a ?b"
    using step.release1 [of c ?a draw1 "ch\<lparr>open := open ch - 1\<rparr>"]
    by (simp add: release_select1_eq)
  have bc: "step ?b ?c"
    using step.release2 [of c ?b draw2 ch' s'] r by simp
  from ab have "rtranclp step ?a ?b" by (rule r_into_rtranclp)
  from this bc show ?thesis by (rule rtranclp.rtrancl_into_rtrancl)
qed

lemma acquire_is_run:
  assumes "acquire dial e (ch, s) = Returns ((conn, er), ch', s')"
      and "select1_at e \<le> select2_at e"
  shows "\<exists>t. rtranclp step
           \<lparr>pool = ch, heap = s, clock = select1_at e,
            threads = add_mset (At_select1 (timer_at e)) T\<rparr>
           \<lparr>pool = ch', heap = s', clock = t, threads = add_mset (Has conn er) T\<rparr>"
proof (cases "acquire_select1 (timer_at e) (select1_at e) (pick1 e) ch")
  case Panics
  then show ?thesis using assms(1) by (simp add: acquire_def)
next
  case Blocks
  then show ?thesis using assms(1) by (simp add: acquire_def)
next
  case (Returns x1)
  obtain r1 ch1 where x1: "x1 = (r1, ch1)" by (cases x1)
  let ?a = "\<lparr>pool = ch, heap = s, clock = select1_at e,
            threads = add_mset (At_select1 (timer_at e)) T\<rparr>"
  let ?b = "\<lparr>pool = ch1, heap = s, clock = select1_at e,
            threads = add_mset (after_select r1 (At_select2 (timer_at e))) T\<rparr>"
  have ab: "step ?a ?b"
    using step.select1 [of "timer_at e" ?a "pick1 e" r1 ch1] Returns x1 by simp
  show ?thesis
  proof (cases r1)
    case (Some r)
    then have "r = (conn, er)" "ch' = ch1" "s' = s"
      using assms(1) Returns x1 by (simp_all add: acquire_def)
    then have "rtranclp step ?a
        \<lparr>pool = ch', heap = s', clock = select1_at e, threads = add_mset (Has conn er) T\<rparr>"
      using ab Some by (simp add: after_select_def)
    then show ?thesis by blast
  next
    case None
    note r1 = None
    let ?b' = "\<lparr>pool = ch1, heap = s, clock = select2_at e,
            threads = add_mset (At_select2 (timer_at e)) T\<rparr>"
    have "step ?b (?b\<lparr>clock := select2_at e\<rparr>)"
      using assms(2) by (intro step.tick) simp
    then have bb: "step ?b ?b'" using r1 by (simp add: after_select_def)
    from ab have "rtranclp step ?a ?b" by (rule r_into_rtranclp)
    from this bb have ab': "rtranclp step ?a ?b'" by (rule rtranclp.rtrancl_into_rtrancl)
    show ?thesis
    proof (cases "acquire_select2 (timer_at e) (select2_at e) (pick2 e) ch1")
      case Panics
      then show ?thesis using assms(1) Returns x1 r1 by (simp add: acquire_def)
    next
      case Blocks
      then show ?thesis using assms(1) Returns x1 r1 by (simp add: acquire_def)
    next
      case (Returns x2)
      note sel2 = Returns
      obtain r2 ch2 where x2: "x2 = (r2, ch2)" by (cases x2)
      let ?c = "\<lparr>pool = ch2, heap = s, clock = select2_at e,
            threads = add_mset (after_select r2 At_dial) T\<rparr>"
      have "step ?b' ?c"
        using step.select2 [of "timer_at e" ?b' "pick2 e" r2 ch2] sel2 x2 by simp
      with ab' have ac: "rtranclp step ?a ?c" by (rule rtranclp.rtrancl_into_rtrancl)
      show ?thesis
      proof (cases r2)
        case (Some r)
        then have "r = (conn, er)" "ch' = ch2" "s' = s"
          using assms(1) \<open>acquire_select1 (timer_at e) (select1_at e) (pick1 e) ch = Returns x1\<close>
            x1 r1 sel2 x2
          by (simp_all add: acquire_def)
        then have "rtranclp step ?a
            \<lparr>pool = ch', heap = s', clock = select2_at e, threads = add_mset (Has conn er) T\<rparr>"
          using ac Some by (simp add: after_select_def)
        then show ?thesis by blast
      next
        case None
        then have d: "acquire_dial dial (ch2, s) = Returns ((conn, er), ch', s')"
          using assms(1) \<open>acquire_select1 (timer_at e) (select1_at e) (pick1 e) ch = Returns x1\<close>
            x1 r1 sel2 x2
          by (simp add: acquire_def)
        let ?d = "\<lparr>pool = ch2, heap = s, clock = select2_at e, threads = add_mset At_dial T\<rparr>"
        have "step ?d \<lparr>pool = ch', heap = s', clock = select2_at e,
            threads = add_mset (Has conn er) T\<rparr>"
          using step.dial [of ?d dial conn er ch' s'] d by simp
        moreover have "rtranclp step ?a ?d" using ac None by (simp add: after_select_def)
        ultimately have "rtranclp step ?a \<lparr>pool = ch', heap = s', clock = select2_at e,
            threads = add_mset (Has conn er) T\<rparr>"
          by (meson rtranclp.rtrancl_into_rtrancl)
        then show ?thesis by blast
      qed
    qed
  qed
qed

lemma after_select_simps:
  "after_select (Some (conn, e)) nxt = Has conn e"
  "after_select None nxt = nxt"
  by (simp_all add: after_select_def)

lemma step_bounded:
  assumes "step \<sigma> \<sigma>'" and "bounded \<sigma>"
  shows "bounded \<sigma>'"
  using assms(1)
proof cases
  case start
  then show ?thesis using assms(2) by (simp add: bounded_def permits_def)
next
  case (tick t)
  then show ?thesis using assms(2) by (simp add: bounded_def permits_def)
next
  case (options_written v)
  then show ?thesis using assms(2) by (simp add: bounded_def permits_def)
next
  case call_acquire
  from call_acquire(2) obtain T where
    "threads \<sigma> = add_mset Outside T"
    "threads \<sigma> - {#Outside#} + {#At_select1 (clock \<sigma>)#} = add_mset (At_select1 (clock \<sigma>)) T"
    by (rule swap_thread)
  then show ?thesis using assms(2) call_acquire(1) by (simp add: bounded_def permits_def)
next
  case (select1 t pick r ch)
  from select1(2) obtain T where
    "threads \<sigma> = add_mset (At_select1 t) T"
    "threads \<sigma> - {#At_select1 t#} + {#after_select r (At_select2 t)#} =
       add_mset (after_select r (At_select2 t)) T"
    by (rule swap_thread)
  then show ?thesis
    using assms(2) select1(1) acquire_select1_Returns [OF select1(3)]
    by (auto simp add: bounded_def permits_def after_select_simps)
next
  case (select2 t pick r ch)
  from select2(2) obtain T where
    "threads \<sigma> = add_mset (At_select2 t) T"
    "threads \<sigma> - {#At_select2 t#} + {#after_select r At_dial#} = add_mset (after_select r At_dial) T"
    by (rule swap_thread)
  then show ?thesis
    using assms(2) select2(1) acquire_select2_Returns [OF select2(3)]
    by (auto simp add: bounded_def permits_def after_select_simps)
next
  case (dial d conn e ch s)
  from dial(2) obtain T where
    "threads \<sigma> = add_mset At_dial T"
    "threads \<sigma> - {#At_dial#} + {#Has conn e#} = add_mset (Has conn e) T"
    by (rule swap_thread)
  then show ?thesis
    using assms(2) dial(1) acquire_dial_Returns [OF dial(3)]
    by (auto simp add: bounded_def permits_def)
next
  case (give_up conn e)
  from give_up(2) obtain T where
    "threads \<sigma> = add_mset (Has conn (Some e)) T"
    "threads \<sigma> - {#Has conn (Some e)#} + {#Outside#} = add_mset Outside T"
    by (rule swap_thread)
  then show ?thesis
    using assms(2) give_up(1) by (cases conn) (auto simp add: bounded_def permits_def)
next
  case (session_fails c e)
  then show ?thesis using assms(2) by (simp add: bounded_def permits_def)
next
  case (release1 c pick ch)
  from release1(2) obtain T where
    "threads \<sigma> = add_mset (Has (Some c) None) T"
    "threads \<sigma> - {#Has (Some c) None#} + {#In_release c#} = add_mset (In_release c) T"
    by (rule swap_thread)
  then show ?thesis
    using assms(2) release1(1,3)
    by (auto simp add: bounded_def permits_def release_select1_eq)
next
  case (release2 c pick ch s)
  from release2(2) obtain T where
    "threads \<sigma> = add_mset (In_release c) T"
    "threads \<sigma> - {#In_release c#} + {#Outside#} = add_mset Outside T"
    by (rule swap_thread)
  then show ?thesis
    using assms(2) release2(1) release_conn_Returns [OF release2(3)]
    by (auto simp add: bounded_def permits_def)
qed

lemma checked_out_by_le_permit: "size (checked_out_by p) \<le> permit_of p"
  by (cases p rule: permit_of.cases) simp_all

lemma size_checked_out_le_permits: "size (checked_out \<sigma>) \<le> permits \<sigma>"
  unfolding checked_out_def permits_def
proof (induction "threads \<sigma>" arbitrary: \<sigma> rule: multiset_induct)
  case empty
  then show ?case by simp
next
  case (add p T)
  from add(1) [of "\<sigma>\<lparr>threads := T\<rparr>"] add(2) [symmetric] checked_out_by_le_permit [of p]
  show ?case by simp
qed

lemma single_owner_count:
  assumes "single_owner \<sigma>"
  shows "count (owned \<sigma>) c \<le> 1"
proof (cases "c \<in># owned \<sigma>")
  case True
  then show ?thesis using assms by (simp add: single_owner_def)
next
  case False
  then show ?thesis by (simp add: not_in_iff)
qed

lemma single_ownerI:
  assumes "\<And>c. count (owned \<sigma>) c \<le> 1"
      and "\<And>c. c \<in># owned \<sigma> \<Longrightarrow> c < length (connects (heap \<sigma>)) \<and> c \<notin> set (closed (heap \<sigma>))"
      and "\<And>c. c \<in> set (closed (heap \<sigma>)) \<Longrightarrow> c < length (connects (heap \<sigma>))"
  shows "single_owner \<sigma>"
  using assms by (simp add: single_owner_def)

lemma single_owner_same:
  assumes "single_owner \<sigma>" and "owned \<sigma>' \<subseteq># owned \<sigma>"
      and "length (connects (heap \<sigma>')) = length (connects (heap \<sigma>))"
      and "closed (heap \<sigma>') = closed (heap \<sigma>)"
  shows "single_owner \<sigma>'"
proof (rule single_ownerI)
  fix c
  have "count (owned \<sigma>') c \<le> count (owned \<sigma>) c"
    using assms(2) by (rule mset_subset_eq_count)
  then show "count (owned \<sigma>') c \<le> 1"
    using single_owner_count [OF assms(1), of c] by simp
next
  fix c assume "c \<in># owned \<sigma>'"
  then have "c \<in># owned \<sigma>" using assms(2) by (meson mset_subset_eqD)
  then show "c < length (connects (heap \<sigma>')) \<and> c \<notin> set (closed (heap \<sigma>'))"
    using assms(1,3,4) by (simp add: single_owner_def)
next
  fix c assume "c \<in> set (closed (heap \<sigma>'))"
  then show "c < length (connects (heap \<sigma>'))"
    using assms(1,3,4) by (simp add: single_owner_def)
qed

lemma single_owner_new:
  assumes "single_owner \<sigma>" and "owned \<sigma>' = add_mset (length (connects (heap \<sigma>))) (owned \<sigma>)"
      and "connects (heap \<sigma>') = connects (heap \<sigma>) @ [x]"
      and "closed (heap \<sigma>') = closed (heap \<sigma>)"
  shows "single_owner \<sigma>'"
proof (rule single_ownerI)
  fix c
  have "length (connects (heap \<sigma>)) \<notin># owned \<sigma>"
    using assms(1) by (auto simp add: single_owner_def)
  then have "count (owned \<sigma>) (length (connects (heap \<sigma>))) = 0"
    by (simp add: not_in_iff)
  then show "count (owned \<sigma>') c \<le> 1"
    using single_owner_count [OF assms(1), of c] assms(2) by auto
next
  fix c assume "c \<in># owned \<sigma>'"
  then show "c < length (connects (heap \<sigma>')) \<and> c \<notin> set (closed (heap \<sigma>'))"
    using assms by (auto simp add: single_owner_def less_Suc_eq)
next
  fix c assume "c \<in> set (closed (heap \<sigma>'))"
  then show "c < length (connects (heap \<sigma>'))"
    using assms by (auto simp add: single_owner_def less_Suc_eq)
qed

lemma single_owner_close:
  assumes "single_owner \<sigma>" and "owned \<sigma> = add_mset c (owned \<sigma>')"
      and "connects (heap \<sigma>') = connects (heap \<sigma>)"
      and "closed (heap \<sigma>') = closed (heap \<sigma>) @ [c]"
  shows "single_owner \<sigma>'"
proof (rule single_ownerI)
  fix d
  have "count (owned \<sigma>) d \<le> 1" using assms(1) by (rule single_owner_count)
  then show "count (owned \<sigma>') d \<le> 1" using assms(2) by (simp split: if_splits)
next
  fix d assume d: "d \<in># owned \<sigma>'"
  have "count (owned \<sigma>) c \<le> 1" using assms(1) by (rule single_owner_count)
  then have "c \<notin># owned \<sigma>'" using assms(2) by (simp add: not_in_iff)
  then have "d \<noteq> c" using d by auto
  moreover have "d \<in># owned \<sigma>" using d assms(2) by simp
  ultimately show "d < length (connects (heap \<sigma>')) \<and> d \<notin> set (closed (heap \<sigma>'))"
    using assms(1,3,4) by (simp add: single_owner_def)
next
  fix d assume "d \<in> set (closed (heap \<sigma>'))"
  moreover have "c \<in># owned \<sigma>" using assms(2) by simp
  ultimately show "d < length (connects (heap \<sigma>'))"
    using assms(1,3,4) by (auto simp add: single_owner_def)
qed

lemma step_single_owner:
  assumes "step \<sigma> \<sigma>'" and "single_owner \<sigma>"
  shows "single_owner \<sigma>'"
  using assms(1)
proof cases
  case start
  then show ?thesis
    by - (rule single_owner_same [OF assms(2)], simp_all add: owned_def held_def)
next
  case (tick t)
  then show ?thesis
    by - (rule single_owner_same [OF assms(2)], simp_all add: owned_def held_def)
next
  case (options_written v)
  then show ?thesis
    by - (rule single_owner_same [OF assms(2)], simp_all add: owned_def held_def)
next
  case call_acquire
  from call_acquire(2) obtain T where
    "threads \<sigma> = add_mset Outside T"
    "threads \<sigma> - {#Outside#} + {#At_select1 (clock \<sigma>)#} = add_mset (At_select1 (clock \<sigma>)) T"
    by (rule swap_thread)
  then show ?thesis
    using call_acquire(1)
    by - (rule single_owner_same [OF assms(2)], simp_all add: owned_def held_def)
next
  case (select1 t pick r ch)
  from select1(2) obtain T where
    "threads \<sigma> = add_mset (At_select1 t) T"
    "threads \<sigma> - {#At_select1 t#} + {#after_select r (At_select2 t)#} =
       add_mset (after_select r (At_select2 t)) T"
    by (rule swap_thread)
  then show ?thesis
    using select1(1) acquire_select1_Returns [OF select1(3)]
    by - (rule single_owner_same [OF assms(2)],
          auto simp add: owned_def held_def after_select_simps)
next
  case (select2 t pick r ch)
  from select2(2) obtain T where
    "threads \<sigma> = add_mset (At_select2 t) T"
    "threads \<sigma> - {#At_select2 t#} + {#after_select r At_dial#} = add_mset (after_select r At_dial) T"
    by (rule swap_thread)
  moreover have "add_mset (hd xs) (mset (tl xs)) = mset xs" if "xs \<noteq> []" for xs :: "nat list"
    using that by (cases xs) simp_all
  ultimately show ?thesis
    using select2(1) acquire_select2_Returns [OF select2(3)]
    by - (rule single_owner_same [OF assms(2)],
          auto simp add: owned_def held_def after_select_simps)
next
  case (dial d conn e ch s)
  from dial(2) obtain T where T:
    "threads \<sigma> = add_mset At_dial T"
    "threads \<sigma> - {#At_dial#} + {#Has conn e#} = add_mset (Has conn e) T"
    by (rule swap_thread)
  from acquire_dial_Returns [OF dial(3)]
  have ch: "ch = (pool \<sigma>)\<lparr>counter := counter (pool \<sigma>) + 1\<rparr>"
    and alt: "(conn = None \<and> s = heap \<sigma>) \<or>
         (conn = Some (length (connects (heap \<sigma>))) \<and> e = None \<and>
          (\<exists>c. s = (heap \<sigma>)\<lparr>connects := connects (heap \<sigma>) @ [c]\<rparr>))"
    by simp_all
  from alt show ?thesis
  proof
    assume "conn = None \<and> s = heap \<sigma>"
    then show ?thesis
      using dial(1) T ch
      by - (rule single_owner_same [OF assms(2)], simp_all add: owned_def held_def)
  next
    assume a: "conn = Some (length (connects (heap \<sigma>))) \<and> e = None \<and>
          (\<exists>c. s = (heap \<sigma>)\<lparr>connects := connects (heap \<sigma>) @ [c]\<rparr>)"
    then obtain x where "s = (heap \<sigma>)\<lparr>connects := connects (heap \<sigma>) @ [x]\<rparr>" by blast
    then show ?thesis
      using dial(1) T ch a
      by - (rule single_owner_new [OF assms(2), of _ x], simp_all add: owned_def held_def)
  qed
next
  case (give_up conn e)
  from give_up(2) obtain T where
    "threads \<sigma> = add_mset (Has conn (Some e)) T"
    "threads \<sigma> - {#Has conn (Some e)#} + {#Outside#} = add_mset Outside T"
    by (rule swap_thread)
  then show ?thesis
    using give_up(1)
    by - (rule single_owner_same [OF assms(2)], simp_all add: owned_def held_def)
next
  case (session_fails c e)
  then show ?thesis
    by - (rule single_owner_same [OF assms(2)], simp_all add: owned_def held_def)
next
  case (release1 c pick ch)
  from release1(2) obtain T where
    "threads \<sigma> = add_mset (Has (Some c) None) T"
    "threads \<sigma> - {#Has (Some c) None#} + {#In_release c#} = add_mset (In_release c) T"
    by (rule swap_thread)
  then show ?thesis
    using release1(1,3)
    by - (rule single_owner_same [OF assms(2)],
          auto simp add: owned_def held_def release_select1_eq)
next
  case (release2 c pick ch s)
  from release2(2) obtain T where T:
    "threads \<sigma> = add_mset (In_release c) T"
    "threads \<sigma> - {#In_release c#} + {#Outside#} = add_mset Outside T"
    by (rule swap_thread)
  from release_conn_Returns [OF release2(3)]
  have alt: "(ch = pool \<sigma> \<and> s = close c (heap \<sigma>)) \<or>
          (ch = (pool \<sigma>)\<lparr>idle := idle (pool \<sigma>) @ [c]\<rparr> \<and> s = heap \<sigma>)"
    by auto
  from alt show ?thesis
  proof
    assume "ch = pool \<sigma> \<and> s = close c (heap \<sigma>)"
    then show ?thesis
      using release2(1) T
      by - (rule single_owner_close [OF assms(2), of c], simp_all add: owned_def held_def close_def)
  next
    assume "ch = (pool \<sigma>)\<lparr>idle := idle (pool \<sigma>) @ [c]\<rparr> \<and> s = heap \<sigma>"
    then show ?thesis
      using release2(1) T
      by - (rule single_owner_same [OF assms(2)], simp_all add: owned_def held_def)
  qed
qed

lemma step_closed_mono:
  assumes "step \<sigma> \<sigma>'"
  shows "set (closed (heap \<sigma>)) \<subseteq> set (closed (heap \<sigma>'))"
  using assms
proof cases
  case (dial d conn e ch s)
  then show ?thesis by (auto dest!: acquire_dial_Returns)
next
  case (release2 c pick ch s)
  then show ?thesis by (auto simp add: close_def dest!: release_conn_Returns)
qed auto

lemma checked_out_by_sub_held_by: "checked_out_by p \<subseteq># held_by p"
  by (cases p rule: held_by.cases) simp_all

lemma checked_out_sub_held: "checked_out \<sigma> \<subseteq># held \<sigma>"
  unfolding checked_out_def held_def
proof (induction "threads \<sigma>" arbitrary: \<sigma> rule: multiset_induct)
  case empty
  then show ?case by simp
next
  case (add p T)
  from add(1) [of "\<sigma>\<lparr>threads := T\<rparr>"] add(2) [symmetric] checked_out_by_sub_held_by [of p]
  show ?case by (simp add: subset_mset.add_mono)
qed

lemma opened_Some:
  assumes "opened maxmem p s t = Some \<sigma>" and "options s p = Some v"
  shows "\<sigma> = \<lparr>pool = \<lparr>opt = p, idle = [], idle_cap = unat (MaxIdleConns (setDefaults v)),
                       open = 0, open_cap = unat (MaxOpenConns (setDefaults v)), counter = 0\<rparr>,
              heap = s\<lparr>options := (options s)(p \<mapsto> setDefaults v)\<rparr>, clock = t, threads = {#}\<rparr>"
  using assms
  by (auto simp add: opened_def Open_def makechan_def split: option.splits if_splits)

lemma reachable_bounded:
  assumes "rtranclp step \<sigma>0 \<sigma>" and "bounded \<sigma>0"
  shows "bounded \<sigma> \<and> open_cap (pool \<sigma>) = open_cap (pool \<sigma>0) \<and>
         idle_cap (pool \<sigma>) = idle_cap (pool \<sigma>0)"
  using assms
proof (induction rule: rtranclp_induct)
  case base
  then show ?case by simp
next
  case (step \<sigma>1 \<sigma>2)
  then show ?case using step_bounded [of \<sigma>1 \<sigma>2] step_caps [of \<sigma>1 \<sigma>2] by simp
qed

lemma reachable_single_owner:
  assumes "rtranclp step \<sigma>0 \<sigma>" and "single_owner \<sigma>0"
  shows "single_owner \<sigma> \<and> set (closed (heap \<sigma>0)) \<subseteq> set (closed (heap \<sigma>))"
  using assms
proof (induction rule: rtranclp_induct)
  case base
  then show ?case by simp
next
  case (step \<sigma>1 \<sigma>2)
  then show ?case using step_single_owner [of \<sigma>1 \<sigma>2] step_closed_mono [of \<sigma>1 \<sigma>2] by auto
qed

text \<open>
  C2. In every state that goroutines can reach from a pool just opened, by any
  interleaving of the parts of their \<^verbatim>\<open>acquire\<close> and \<^verbatim>\<open>release\<close> calls, the sessions
  checked out are at most the configured max-open and the idle queue holds at most the
  configured max-idle (the values of the options after defaulting).
\<close>

theorem pool_bounds:
  assumes "opened maxmem p s t = Some \<sigma>0" and "options s p = Some v"
      and "rtranclp step \<sigma>0 \<sigma>"
  shows "size (checked_out \<sigma>) \<le> unat (MaxOpenConns (setDefaults v)) \<and>
         length (idle (pool \<sigma>)) \<le> unat (MaxIdleConns (setDefaults v))"
proof -
  note init = opened_Some [OF assms(1,2)]
  have "bounded \<sigma>0" by (simp add: init bounded_def permits_def)
  from reachable_bounded [OF assms(3) this]
  have b: "bounded \<sigma>" and c: "open_cap (pool \<sigma>) = unat (MaxOpenConns (setDefaults v))"
    "idle_cap (pool \<sigma>) = unat (MaxIdleConns (setDefaults v))"
    by (simp_all add: init)
  have "size (checked_out \<sigma>) \<le> permits \<sigma>" by (rule size_checked_out_le_permits)
  then show ?thesis using b c by (simp add: bounded_def)
qed

text \<open>
  C4. When a goroutine is inside \<^verbatim>\<open>release\<close> with a session whose error is set, the
  rest of \<^verbatim>\<open>release\<close> leaves the idle queue as it is and closes the session; and
  whatever the goroutines do afterwards, that session is closed, is not in the idle queue
  and is not checked out: no \<^verbatim>\<open>acquire\<close> hands it out again. The store at \<^verbatim>\<open>Open\<close>
  is assumed to list only allocated sessions as closed.
\<close>

theorem errored_session_never_reused:
  assumes "opened maxmem p s t = Some \<sigma>0" and "options s p = Some v"
      and "\<forall>c \<in> set (closed s). c < length (connects s)"
      and "rtranclp step \<sigma>0 \<sigma>1"
      and "In_release c \<in># threads \<sigma>1" and "err (connects (heap \<sigma>1) ! c) \<noteq> None"
      and "release_conn (clock \<sigma>1) pick (Some c) (pool \<sigma>1, heap \<sigma>1) = Returns (ch, s')"
      and "rtranclp step
             (\<sigma>1\<lparr>pool := ch, heap := s', threads := threads \<sigma>1 - {#In_release c#} + {#Outside#}\<rparr>)
             \<sigma>2"
  shows "ch = pool \<sigma>1 \<and> s' = close c (heap \<sigma>1) \<and>
         c \<in> set (closed (heap \<sigma>2)) \<and> c \<notin> set (idle (pool \<sigma>2)) \<and> c \<notin># checked_out \<sigma>2"
proof -
  let ?\<sigma> = "\<sigma>1\<lparr>pool := ch, heap := s', threads := threads \<sigma>1 - {#In_release c#} + {#Outside#}\<rparr>"
  note init = opened_Some [OF assms(1,2)]
  have "single_owner \<sigma>0"
    using assms(3) by (simp add: init single_owner_def owned_def held_def)
  from reachable_single_owner [OF assms(4) this] have o1: "single_owner \<sigma>1" by simp
  have st: "step \<sigma>1 ?\<sigma>" using assms(5,7) by (rule step.release2)
  then have o: "single_owner ?\<sigma>" using o1 by (rule step_single_owner)
  from reachable_single_owner [OF assms(8) o]
  have o2: "single_owner \<sigma>2" and mono: "set (closed (heap ?\<sigma>)) \<subseteq> set (closed (heap \<sigma>2))"
    by simp_all
  have r: "ch = pool \<sigma>1 \<and> s' = close c (heap \<sigma>1)"
    using assms(6,7) by (auto simp add: release_conn_def split: if_splits)
  then have "c \<in> set (closed (heap ?\<sigma>))" by (simp add: close_def)
  then have cl: "c \<in> set (closed (heap \<sigma>2))" using mono by blast
  then have n: "c \<notin># owned \<sigma>2" using o2 by (auto simp add: single_owner_def)
  then have "c \<notin> set (idle (pool \<sigma>2))" by (simp add: owned_def)
  moreover have "c \<notin># checked_out \<sigma>2"
    using n checked_out_sub_held [of \<sigma>2] by (auto simp add: owned_def dest: mset_subset_eqD)
  ultimately show ?thesis using r cl by simp
qed

text \<open>
  One goroutine acquiring on a pool with a free permit, no idle session and the single
  address \<^verbatim>\<open>good:9000\<close>: four steps, ending with the new session checked out.
\<close>

lemma acquire_run:
  assumes "open ch < open_cap ch" and "idle ch = []"
      and "options s (opt ch) = Some v" and "Addr v = [''good:9000'']"
  shows "rtranclp step
           \<lparr>pool = ch, heap = s, clock = 0, threads = {#Outside#}\<rparr>
           \<lparr>pool = ch\<lparr>open := open ch + 1, counter := counter ch + 1\<rparr>,
            heap = s\<lparr>connects := connects s @ [\<lparr>err = None, connectedAt = 0\<rparr>]\<rparr>,
            clock = 0, threads = {#Has (Some (length (connects s))) None#}\<rparr>"
proof -
  let ?a = "\<lparr>pool = ch, heap = s, clock = 0, threads = {#Outside#}\<rparr>"
  let ?b = "\<lparr>pool = ch, heap = s, clock = 0, threads = {#At_select1 0#}\<rparr>"
  let ?c = "\<lparr>pool = ch\<lparr>open := open ch + 1\<rparr>, heap = s, clock = 0, threads = {#At_select2 0#}\<rparr>"
  let ?d = "\<lparr>pool = ch\<lparr>open := open ch + 1\<rparr>, heap = s, clock = 0, threads = {#At_dial#}\<rparr>"
  let ?e = "\<lparr>pool = ch\<lparr>open := open ch + 1, counter := counter ch + 1\<rparr>,
            heap = s\<lparr>connects := connects s @ [\<lparr>err = None, connectedAt = 0\<rparr>]\<rparr>,
            clock = 0, threads = {#Has (Some (length (connects s))) None#}\<rparr>"
  have ab: "step ?a ?b"
    using step.call_acquire [of ?a] by simp
  have bc: "step ?b ?c"
    using step.select1 [of 0 ?b 0 None "ch\<lparr>open := open ch + 1\<rparr>"] assms(1)
    by (simp add: acquire_select1_eq timer_C_def time_Second_def after_select_def)
  have cd: "step ?c ?d"
    using step.select2 [of 0 ?c 0 None "ch\<lparr>open := open ch + 1\<rparr>"] assms(2)
    by (simp add: acquire_select2_eq timer_C_def time_Second_def after_select_def)
  have de: "step ?d ?e"
    using step.dial [of ?d dial_sample "Some (length (connects s))" None
        "ch\<lparr>open := open ch + 1, counter := counter ch + 1\<rparr>"
        "s\<lparr>connects := connects s @ [\<lparr>err = None, connectedAt = 0\<rparr>]\<rparr>"] assms(3,4)
    by (simp add: acquire_dial_def dial_sample_def)
  from ab have "rtranclp step ?a ?b" by (rule r_into_rtranclp)
  from this bc have "rtranclp step ?a ?c" by (rule rtranclp.rtrancl_into_rtrancl)
  from this cd have "rtranclp step ?a ?d" by (rule rtranclp.rtrancl_into_rtrancl)
  from this de show ?thesis by (rule rtranclp.rtrancl_into_rtrancl)
qed

lemma sample_run:
  "opened (2 ^ 48) 0
     \<lparr>options = [0 \<mapsto> Options_zero\<lparr>Addr := [''good:9000'']\<rparr>], connects = [], closed = []\<rparr> 0 =
     Some run_opened"
  "rtranclp step run_opened run_acquired"
  "rtranclp step run_acquired run_releasing"
  "release_conn (clock run_releasing) 0 (Some 0) (pool run_releasing, heap run_releasing) =
     Returns (pool run_releasing, close 0 (heap run_releasing))"
  "rtranclp step
     (run_releasing\<lparr>pool := pool run_releasing, heap := close 0 (heap run_releasing),
        threads := threads run_releasing - {#In_release 0#} + {#Outside#}\<rparr>)
     run_again"
proof -
  show "opened (2 ^ 48) 0
     \<lparr>options = [0 \<mapsto> Options_zero\<lparr>Addr := [''good:9000'']\<rparr>], connects = [], closed = []\<rparr> 0 =
     Some run_opened"
    by (simp add: opened_def Open_def makechan_def setDefaults_MaxIdleConns
        setDefaults_MaxOpenConns Options_zero_def run_opened_def pool_sample_def store_sample_def)
  have o: "options (store_sample [''good:9000'']) 0 =
      Some (setDefaults (Options_zero\<lparr>Addr := [''good:9000'']\<rparr>))"
    by (simp add: store_sample_def)
  have a: "Addr (setDefaults (Options_zero\<lparr>Addr := [''good:9000'']\<rparr>)) = [''good:9000'']"
    by (simp add: setDefaults_keeps)
  have "step run_opened (run_opened\<lparr>threads := threads run_opened + {#Outside#}\<rparr>)"
    by (rule step.start)
  then have "rtranclp step run_opened
      \<lparr>pool = pool_sample, heap = store_sample [''good:9000''], clock = 0, threads = {#Outside#}\<rparr>"
    by (simp add: run_opened_def)
  moreover have "rtranclp step
      \<lparr>pool = pool_sample, heap = store_sample [''good:9000''], clock = 0, threads = {#Outside#}\<rparr>
      run_acquired"
    using acquire_run [of pool_sample "store_sample [''good:9000'']", OF _ _ _ a]
    by (simp add: o pool_sample_def run_acquired_def store_sample_def)
  ultimately show "rtranclp step run_opened run_acquired"
    by (rule rtranclp_trans)
  let ?f = "run_acquired\<lparr>heap := (heap run_acquired)\<lparr>connects :=
      (connects (heap run_acquired))
        [0 := (connects (heap run_acquired) ! 0)\<lparr>err := Some (Failure ''broken pipe'')\<rparr>]\<rparr>\<rparr>"
  have "step run_acquired ?f"
    by (rule step.session_fails) (simp_all add: run_acquired_def)
  moreover have "step ?f run_releasing"
    using step.release1 [of 0 ?f 0 "pool_sample\<lparr>counter := 1\<rparr>"]
    by (simp add: release_select1_eq run_acquired_def run_releasing_def pool_sample_def)
  ultimately show "rtranclp step run_acquired run_releasing"
    by (meson r_into_rtranclp rtranclp.rtrancl_into_rtrancl)
  show "release_conn (clock run_releasing) 0 (Some 0) (pool run_releasing, heap run_releasing) =
     Returns (pool run_releasing, close 0 (heap run_releasing))"
    by (simp add: release_conn_def run_releasing_def)
  show "rtranclp step
     (run_releasing\<lparr>pool := pool run_releasing, heap := close 0 (heap run_releasing),
        threads := threads run_releasing - {#In_release 0#} + {#Outside#}\<rparr>)
     run_again"
    using acquire_run [of "pool_sample\<lparr>counter := 1\<rparr>"
        "close 0 ((store_sample [''good:9000''])
           \<lparr>connects := [\<lparr>err = Some (Failure ''broken pipe''), connectedAt = 0\<rparr>]\<rparr>)",
        OF _ _ _ a]
    by (simp add: pool_sample_def run_releasing_def run_again_def store_sample_def close_def)
qed

text \<open>
  The run from the opened sample pool to the state with session 0 checked out: one
  session of at most 10, no idle session of at most 5.
\<close>

theorem pool_bounds_witness:
  "opened (2 ^ 48) 0
     \<lparr>options = [0 \<mapsto> Options_zero\<lparr>Addr := [''good:9000'']\<rparr>], connects = [], closed = []\<rparr> 0 =
     Some run_opened \<and>
   rtranclp step run_opened run_acquired \<and>
   size (checked_out run_acquired) \<le> 10 \<and> length (idle (pool run_acquired)) \<le> 5"
proof -
  have d: "MaxOpenConns (setDefaults (Options_zero\<lparr>Addr := [''good:9000'']\<rparr>)) = 10"
    "MaxIdleConns (setDefaults (Options_zero\<lparr>Addr := [''good:9000'']\<rparr>)) = 5"
    by (simp_all add: setDefaults_MaxOpenConns setDefaults_MaxIdleConns Options_zero_def)
  show ?thesis
    using pool_bounds [OF sample_run(1) _ sample_run(2), of "Options_zero\<lparr>Addr := [''good:9000'']\<rparr>"]
      sample_run(1,2)
    by (simp add: d)
qed

text \<open>
  The run goes on: session 0 fails and is released; \<^verbatim>\<open>release\<close> closes it; the next
  \<^verbatim>\<open>acquire\<close> dials session 1, and session 0 is neither idle nor checked out.
\<close>

theorem errored_session_never_reused_witness:
  "rtranclp step run_opened run_releasing \<and>
   In_release 0 \<in># threads run_releasing \<and>
   err (connects (heap run_releasing) ! 0) = Some (Failure ''broken pipe'') \<and>
   release_conn (clock run_releasing) 0 (Some 0) (pool run_releasing, heap run_releasing) =
     Returns (pool run_releasing, close 0 (heap run_releasing)) \<and>
   rtranclp step
     (run_releasing\<lparr>pool := pool run_releasing, heap := close 0 (heap run_releasing),
        threads := threads run_releasing - {#In_release 0#} + {#Outside#}\<rparr>)
     run_again \<and>
   0 \<in> set (closed (heap run_again)) \<and> 0 \<notin> set (idle (pool run_again)) \<and>
   0 \<notin># checked_out run_again"
proof -
  have r: "rtranclp step run_opened run_releasing"
    using sample_run(2,3) by (rule rtranclp_trans)
  have t: "In_release 0 \<in># threads run_releasing"
    "err (connects (heap run_releasing) ! 0) = Some (Failure ''broken pipe'')"
    by (simp_all add: run_releasing_def)
  have e: "err (connects (heap run_releasing) ! 0) \<noteq> None"
    by (simp add: t(2))
  have "0 \<in> set (closed (heap run_again)) \<and> 0 \<notin> set (idle (pool run_again)) \<and>
      0 \<notin># checked_out run_again"
    using errored_session_never_reused [OF sample_run(1) _ _ r t(1) e sample_run(4,5),
        of "Options_zero\<lparr>Addr := [''good:9000'']\<rparr>"]
    by simp
  then show ?thesis using r t sample_run(4,5) by simp
qed

end
